theory Spec2Isabelle
  imports Main "HOL-Library.Sublist" "HOL-Library.Char_ord" "HOL-Library.List_Lexorder"
begin

section \<open>Strings as the interpreter sees them\<close>

text \<open>
  Both analyzers open their file with \<^verbatim>\<open>encoding='latin-1'\<close> in text mode, so every byte of
  the file is one character of the text (code points 0 to 255, which is exactly the type
  \<^typ>\<open>char\<close>), and the reader turns the line endings CR LF and CR into LF before the
  program sees the text.
\<close>

fun universal_newlines :: "string \<Rightarrow> string" where
  "universal_newlines [] = []"
| "universal_newlines [c] = (if c = CHR 0x0D then [CHR 0x0A] else [c])"
| "universal_newlines (c # d # cs) =
     (if c = CHR 0x0D then
        (if d = CHR 0x0A then CHR 0x0A # universal_newlines cs
         else CHR 0x0A # universal_newlines (d # cs))
      else c # universal_newlines (d # cs))"

text \<open>The character classes \<^verbatim>\<open>\d\<close>, \<^verbatim>\<open>\s\<close> and \<^verbatim>\<open>\w\<close> of the regular-expression module,
  restricted to the code points below 256; \<^verbatim>\<open>str.strip\<close> removes the same characters as \<^verbatim>\<open>\s\<close>.\<close>

definition is_digit :: "char \<Rightarrow> bool" where
  "is_digit c = (let n = (of_char c :: nat) in 48 \<le> n \<and> n \<le> 57)"

definition is_space :: "char \<Rightarrow> bool" where
  "is_space c = (let n = (of_char c :: nat) in
     (9 \<le> n \<and> n \<le> 13) \<or> (28 \<le> n \<and> n \<le> 32) \<or> n = 133 \<or> n = 160)"

definition is_word :: "char \<Rightarrow> bool" where
  "is_word c = (let n = (of_char c :: nat) in
     (48 \<le> n \<and> n \<le> 57) \<or> (65 \<le> n \<and> n \<le> 90) \<or> n = 95 \<or> (97 \<le> n \<and> n \<le> 122) \<or>
     n = 170 \<or> n = 178 \<or> n = 179 \<or> n = 181 \<or> n = 185 \<or> n = 186 \<or>
     (188 \<le> n \<and> n \<le> 190) \<or> (192 \<le> n \<and> n \<le> 214) \<or> (216 \<le> n \<and> n \<le> 246) \<or>
     (248 \<le> n \<and> n \<le> 255))"

definition strip :: "string \<Rightarrow> string" where
  "strip s = rev (dropWhile is_space (rev (dropWhile is_space s)))"

fun split_on :: "char \<Rightarrow> string \<Rightarrow> string list" where
  "split_on d [] = [[]]"
| "split_on d (c # cs) =
     (if c = d then [] # split_on d cs
      else (case split_on d cs of [] \<Rightarrow> [[c]] | w # ws \<Rightarrow> (c # w) # ws))"

text \<open>
  \<^verbatim>\<open>int(s)\<close> on a string of decimal digits; the integers are unbounded. Newer interpreters
  refuse a digit string longer than a configurable limit (4300 digits by default); that
  limit is not modelled, the numbers of labels and operands are taken to be shorter.
\<close>

definition int_of_digits :: "string \<Rightarrow> int" where
  "int_of_digits s = foldl (\<lambda>a c. 10 * a + (int (of_char c) - 48)) 0 s"

text \<open>\<^verbatim>\<open>pat in s\<close> on strings.\<close>

fun contains :: "string \<Rightarrow> string \<Rightarrow> bool" where
  "contains pat [] = (pat = [])"
| "contains pat (c # cs) = (prefix pat (c # cs) \<or> contains pat cs)"

text \<open>
  \<^verbatim>\<open>str.upper\<close>. On the code points below 256 the only characters whose upper-case form
  contains an ASCII letter are the ASCII letters themselves, and the program only looks for
  ASCII markers in the upper-cased text, so the other characters are left as they are.
\<close>

definition upper_char :: "char \<Rightarrow> char" where
  "upper_char c = (let n = (of_char c :: nat) in if 97 \<le> n \<and> n \<le> 122 then char_of (n - 32) else c)"

definition upper :: "string \<Rightarrow> string" where
  "upper s = map upper_char s"

text \<open>\<^verbatim>\<open>os.path.basename\<close>: what follows the last slash.\<close>

definition basename :: "string \<Rightarrow> string" where
  "basename path = rev (takeWhile (\<lambda>c. c \<noteq> CHR ''/'') (rev path))"


section \<open>Regular expressions with backtracking\<close>

text \<open>
  The patterns of the program are sequences of literals, single characters of a class,
  greedy and lazy repetitions of a class, capturing groups, optional groups, alternatives
  and word boundaries. A pattern is a list of items; \<open>GOpen i\<close> and \<open>GClose i\<close> mark where
  group \<open>i\<close> starts and ends. \<open>x+\<close> is written \<open>One x, Star x\<close>.
\<close>

datatype cls = Digit | Space | Word | AnyChar | NotNL | Is char | NotChar char | Or cls cls

fun cls_mem :: "cls \<Rightarrow> char \<Rightarrow> bool" where
  "cls_mem Digit c = is_digit c"
| "cls_mem Space c = is_space c"
| "cls_mem Word c = is_word c"
| "cls_mem AnyChar c = True"
| "cls_mem NotNL c = (c \<noteq> CHR 0x0A)"
| "cls_mem (Is d) c = (c = d)"
| "cls_mem (NotChar d) c = (c \<noteq> d)"
| "cls_mem (Or k l) c = (cls_mem k c \<or> cls_mem l c)"

datatype item = Lit string | One cls | Star cls | LazyStar cls | GOpen nat | GClose nat
  | Opt "item list" | Alt "item list list" | WordB

fun isize :: "item \<Rightarrow> nat" where
  "isize (Opt g) = Suc (sum_list (map isize g))"
| "isize (Alt as) = Suc (sum_list (map (\<lambda>a. Suc (sum_list (map isize a))) as))"
| "isize _ = 1"

type_synonym groups = "nat \<rightharpoonup> string"

text \<open>A match: the groups, the last character consumed, and the text after the match.\<close>

type_synonym mres = "groups \<times> char option \<times> string"

definition at_boundary :: "char option \<Rightarrow> string \<Rightarrow> bool" where
  "at_boundary p s =
     ((case p of None \<Rightarrow> False | Some a \<Rightarrow> is_word a) \<noteq>
      (case s of [] \<Rightarrow> False | b # _ \<Rightarrow> is_word b))"

text \<open>
  \<open>match_here r p s opn cap\<close> matches the pattern \<open>r\<close> at the start of \<open>s\<close>, where \<open>p\<close> is the
  character before \<open>s\<close>. The first alternative that lets the rest of the pattern match is
  taken: a greedy repetition tries the longest run first, a lazy one the shortest.
\<close>

function match_here :: "item list \<Rightarrow> char option \<Rightarrow> string \<Rightarrow> groups \<Rightarrow> groups \<Rightarrow> mres option" where
  "match_here [] p s opn cap = Some (cap, p, s)"
| "match_here (Lit l # r) p s opn cap =
     (if prefix l s
      then match_here r (if l = [] then p else Some (last l)) (drop (length l) s) opn cap
      else None)"
| "match_here (One k # r) p s opn cap =
     (case s of [] \<Rightarrow> None
      | x # xs \<Rightarrow> if cls_mem k x then match_here r (Some x) xs opn cap else None)"
| "match_here (Star k # r) p s opn cap =
     (case s of [] \<Rightarrow> match_here r p s opn cap
      | x # xs \<Rightarrow>
          if cls_mem k x then
            (case match_here (Star k # r) (Some x) xs opn cap of
               Some res \<Rightarrow> Some res
             | None \<Rightarrow> match_here r p s opn cap)
          else match_here r p s opn cap)"
| "match_here (LazyStar k # r) p s opn cap =
     (case match_here r p s opn cap of
        Some res \<Rightarrow> Some res
      | None \<Rightarrow>
          (case s of [] \<Rightarrow> None
           | x # xs \<Rightarrow>
               if cls_mem k x then match_here (LazyStar k # r) (Some x) xs opn cap else None))"
| "match_here (GOpen i # r) p s opn cap = match_here r p s (opn(i \<mapsto> s)) cap"
| "match_here (GClose i # r) p s opn cap =
     match_here r p s opn
       (cap(i \<mapsto> (case opn i of None \<Rightarrow> [] | Some s0 \<Rightarrow> take (length s0 - length s) s0)))"
| "match_here (Opt g # r) p s opn cap =
     (case match_here (g @ r) p s opn cap of
        Some res \<Rightarrow> Some res
      | None \<Rightarrow> match_here r p s opn cap)"
| "match_here (Alt [] # r) p s opn cap = None"
| "match_here (Alt (a # as) # r) p s opn cap =
     (case match_here (a @ r) p s opn cap of
        Some res \<Rightarrow> Some res
      | None \<Rightarrow> match_here (Alt as # r) p s opn cap)"
| "match_here (WordB # r) p s opn cap =
     (if at_boundary p s then match_here r p s opn cap else None)"
  by pat_completeness auto
termination
  by (relation "measures [\<lambda>(r, p, s, opn, cap). sum_list (map isize r),
                          \<lambda>(r, p, s, opn, cap). length s]") auto

text \<open>\<^verbatim>\<open>re.match\<close>: at the start of the text only.\<close>

definition re_match :: "item list \<Rightarrow> string \<Rightarrow> mres option" where
  "re_match r s = match_here r None s Map.empty Map.empty"

text \<open>\<^verbatim>\<open>re.search\<close>: the leftmost position where the pattern matches.\<close>

fun search_from :: "item list \<Rightarrow> char option \<Rightarrow> string \<Rightarrow> mres option" where
  "search_from r p [] = match_here r p [] Map.empty Map.empty"
| "search_from r p (x # xs) =
     (case match_here r p (x # xs) Map.empty Map.empty of
        Some res \<Rightarrow> Some res
      | None \<Rightarrow> search_from r (Some x) xs)"

definition re_search :: "item list \<Rightarrow> string \<Rightarrow> groups option" where
  "re_search r s = map_option fst (search_from r None s)"

text \<open>
  \<^verbatim>\<open>re.finditer\<close>: the matches from left to right, each search starting where the match
  before it ended. Every pattern the program iterates over consumes at least two characters;
  the branch for a match that consumes nothing only moves one character on.
\<close>

function finditer_from :: "item list \<Rightarrow> char option \<Rightarrow> string \<Rightarrow> groups list" where
  "finditer_from r p s =
     (case search_from r p s of
        None \<Rightarrow> []
      | Some (g, p', rest) \<Rightarrow>
          g # (if length rest < length s then finditer_from r p' rest
               else (case s of [] \<Rightarrow> [] | x # xs \<Rightarrow> finditer_from r (Some x) xs)))"
  by pat_completeness auto
termination
  by (relation "measure (\<lambda>(r, p, s). length s)") auto

definition re_finditer :: "item list \<Rightarrow> string \<Rightarrow> groups list" where
  "re_finditer r s = finditer_from r None s"

text \<open>\<^verbatim>\<open>match.group(i)\<close> of a group that took part in the match, and the idiom
  \<^verbatim>\<open>match.group(i) if match.group(i) else ""\<close>.\<close>

definition group :: "groups \<Rightarrow> nat \<Rightarrow> string" where
  "group g i = (case g i of None \<Rightarrow> [] | Some s \<Rightarrow> s)"


section \<open>The program model (class FANUCProgram)\<close>

text \<open>
  The five sets of operands are kept as lists without repetition, in the order in which the
  elements were first added: \<open>add_new\<close> is \<^verbatim>\<open>s.add(x)\<close>. The program reads these sets
  through \<^verbatim>\<open>len\<close> and through loops whose result does not depend on the order of the
  elements. The list of position registers is a list in the program too, appended to under
  the same test.
\<close>

definition add_new :: "'a \<Rightarrow> 'a list \<Rightarrow> 'a list" where
  "add_new x xs = (if List.member xs x then xs else xs @ [x])"

record FANUCProgram =
  filename :: string
  name :: string
  attributes :: "string \<rightharpoonup> string"
  labels :: "(int \<times> string \<times> nat) list"
  positions :: "(int \<times> string) list"
  registers_used :: "(int \<times> string) list"
  digital_inputs :: "(int \<times> string) list"
  digital_outputs :: "(int \<times> string) list"
  register_inputs :: "(int \<times> string) list"
  register_outputs :: "(int \<times> string) list"
  calls :: "(string \<times> nat) list"
  jumps :: "(int \<times> nat) list"
  code_lines :: "string list"
  position_registers :: "(int \<times> string) list"
  errors :: "(int \<times> string) list"
  program_type :: string
  product_code :: "string option"
  has_iml :: bool
  statistics :: "(string \<times> nat) list"

definition new_program :: "string \<Rightarrow> FANUCProgram" where
  "new_program fname =
     \<lparr> filename = fname, name = [], attributes = Map.empty, labels = [], positions = [],
       registers_used = [], digital_inputs = [], digital_outputs = [], register_inputs = [],
       register_outputs = [], calls = [], jumps = [], code_lines = [], position_registers = [],
       errors = [], program_type = ''unknown'', product_code = None, has_iml = False,
       statistics = [] \<rparr>"

subsection \<open>Classification\<close>

definition main_re :: "item list" where
  "main_re = [Lit ''A_1PA'', One Digit, One Digit, One Digit]"

definition product_re :: "item list" where
  "product_re = [Lit ''_'', GOpen 1,
     Alt [[Lit ''384''], [Lit ''096''], [Lit ''1536CC''], [Lit ''005''], [Lit ''017''],
          [Lit ''140''], [Lit ''180'']], GClose 1]"

definition classify_program :: "FANUCProgram \<Rightarrow> FANUCProgram" where
  "classify_program p =
     (if re_match main_re (name p) \<noteq> None then
        p\<lparr> program_type := ''main'',
           has_iml := (if list_ex (\<lambda>line. contains ''IML'' (upper line) \<or> contains ''FOLIE'' (upper line))
                            (code_lines p)
                       then True else has_iml p) \<rparr>
      else if list_ex (\<lambda>pre. contains pre (name p)) [''KER1_'', ''KER2_'', ''AFLG_'', ''PRINTEN'', ''BUF_''] then
        (case re_search product_re (name p) of
           None \<Rightarrow> p\<lparr> program_type := ''subprogram'' \<rparr>
         | Some g \<Rightarrow> p\<lparr> program_type := ''subprogram'', product_code := Some (group g 1) \<rparr>)
      else if List.member [''HOMING'', ''HOMEN'', ''HOMEN1'', ''TEKST'', ''FOLIE'', ''DUMPEN'', ''RUST''] (name p) then
        p\<lparr> program_type := ''utility'' \<rparr>
      else if prefix ''ERR'' (name p) \<or> List.member [''LOGBOOK'', ''PMC''] (name p) then
        p\<lparr> program_type := ''system'' \<rparr>
      else p\<lparr> program_type := ''other'' \<rparr>)"

subsection \<open>Statistics\<close>

definition calculate_statistics :: "FANUCProgram \<Rightarrow> FANUCProgram" where
  "calculate_statistics p =
     p\<lparr> statistics :=
         [(''total_lines'', length (code_lines p)),
          (''label_count'', length (labels p)),
          (''call_count'', length (calls p)),
          (''jump_count'', length (jumps p)),
          (''position_count'', length (positions p)),
          (''register_count'', length (registers_used p)),
          (''di_count'', length (digital_inputs p)),
          (''do_count'', length (digital_outputs p)),
          (''ri_count'', length (register_inputs p)),
          (''ro_count'', length (register_outputs p)),
          (''error_labels'', length (errors p))] \<rparr>"


section \<open>The parser (class FANUCParser)\<close>

subsection \<open>Header and attributes\<close>

definition prog_re :: "item list" where
  "prog_re = [Lit ''/PROG'', One Space, Star Space, GOpen 1, One Word, Star Word, GClose 1]"

definition parse_header :: "FANUCProgram \<Rightarrow> string \<Rightarrow> FANUCProgram" where
  "parse_header program content =
     (case re_search prog_re content of
        None \<Rightarrow> program
      | Some g \<Rightarrow> program\<lparr> name := group g 1 \<rparr>)"

definition attr_re :: "item list" where
  "attr_re = [Lit ''/ATTR'', GOpen 1, LazyStar AnyChar, GClose 1, Lit ''/'',
              Alt [[Lit ''APPL''], [Lit ''MN'']]]"

definition assign_re :: "string \<Rightarrow> item list" where
  "assign_re key = [Lit key, Star Space, Lit ''='', Star Space]"

definition date_time_re :: "string \<Rightarrow> item list" where
  "date_time_re key = assign_re key @
     [Lit ''DATE'', One Space, Star Space,
      GOpen 1, One (Or Digit (Is CHR ''-'')), Star (Or Digit (Is CHR ''-'')), GClose 1,
      One Space, Star Space, Lit ''TIME'', One Space, Star Space,
      GOpen 2, One (Or Digit (Is CHR '':'')), Star (Or Digit (Is CHR '':'')), GClose 2]"

definition number_re :: "string \<Rightarrow> item list" where
  "number_re key = assign_re key @ [GOpen 1, One Digit, Star Digit, GClose 1]"

definition until_semicolon_re :: "string \<Rightarrow> item list" where
  "until_semicolon_re key = assign_re key @
     [GOpen 1, One (NotChar CHR '';''), Star (NotChar CHR '';''), GClose 1, Lit '';'']"

definition quoted_re :: "string \<Rightarrow> item list" where
  "quoted_re key = assign_re key @
     [Lit [CHR 0x22], GOpen 1, One (NotChar (CHR 0x22)), Star (NotChar (CHR 0x22)), GClose 1,
      Lit [CHR 0x22]]"

definition patterns :: "(string \<times> item list) list" where
  "patterns =
     [(''OWNER'', until_semicolon_re ''OWNER''),
      (''COMMENT'', quoted_re ''COMMENT''),
      (''PROG_SIZE'', number_re ''PROG_SIZE''),
      (''CREATE'', date_time_re ''CREATE''),
      (''MODIFIED'', date_time_re ''MODIFIED''),
      (''LINE_COUNT'', number_re ''LINE_COUNT''),
      (''MEMORY_SIZE'', number_re ''MEMORY_SIZE''),
      (''PROTECT'', until_semicolon_re ''PROTECT'')]"

definition parse_attribute :: "string \<Rightarrow> FANUCProgram \<Rightarrow> string \<times> item list \<Rightarrow> FANUCProgram" where
  "parse_attribute attr_text program kp =
     (case re_search (snd kp) attr_text of
        None \<Rightarrow> program
      | Some g \<Rightarrow>
          if List.member [''CREATE'', ''MODIFIED''] (fst kp) then
            program\<lparr> attributes := (attributes program)(fst kp \<mapsto> group g 1 @ '' '' @ group g 2) \<rparr>
          else
            program\<lparr> attributes := (attributes program)(fst kp \<mapsto> strip (group g 1)) \<rparr>)"

definition parse_attributes :: "FANUCProgram \<Rightarrow> string \<Rightarrow> FANUCProgram" where
  "parse_attributes program content =
     (case re_search attr_re content of
        None \<Rightarrow> program
      | Some g \<Rightarrow> foldl (parse_attribute (group g 1)) program patterns)"

subsection \<open>The main code\<close>

definition mn_re :: "item list" where
  "mn_re = [Lit ''/MN'', GOpen 1, LazyStar AnyChar, GClose 1, Lit ''/'',
            Alt [[Lit ''POS''], [Lit ''END'']]]"

text \<open>The pattern \<^verbatim>\<open>X\[(\d+)(?::([^\]]+))?\]\<close> for the prefix \<open>X\<close>: labels and the six
  kinds of operand.\<close>

definition bracket_re :: "string \<Rightarrow> item list" where
  "bracket_re pre =
     [Lit (pre @ ''[''), GOpen 1, One Digit, Star Digit, GClose 1,
      Opt [Lit '':'', GOpen 2, One (NotChar CHR '']''), Star (NotChar CHR '']''), GClose 2],
      Lit '']'']"

definition jump_re :: "item list" where
  "jump_re = [Lit ''JMP'', One Space, Star Space, Lit ''LBL['', GOpen 1, One Digit, Star Digit, GClose 1]"

definition call_re :: "item list" where
  "call_re = [Lit ''CALL'', One Space, Star Space, GOpen 1, One Word, Star Word, GClose 1]"

text \<open>The pair (number, name) of a match of a bracket pattern.\<close>

definition operand :: "groups \<Rightarrow> int \<times> string" where
  "operand g = (int_of_digits (group g 1), group g 2)"

text \<open>A line is skipped when it is empty after stripping or starts with the comment mark.\<close>

definition skipped :: "string \<Rightarrow> bool" where
  "skipped line = (line = [] \<or> prefix ''!'' line)"

definition parse_label :: "nat \<Rightarrow> string \<Rightarrow> FANUCProgram \<Rightarrow> FANUCProgram" where
  "parse_label i line program =
     (case re_search (bracket_re ''LBL'') line of
        None \<Rightarrow> program
      | Some g \<Rightarrow>
          (let label_num = int_of_digits (group g 1);
               label_name = group g 2;
               program = program\<lparr> labels := labels program @ [(label_num, label_name, i)] \<rparr>
           in if 500 \<le> label_num \<and> label_num < 800
              then program\<lparr> errors := errors program @ [(label_num, label_name)] \<rparr>
              else program))"

definition parse_jump :: "nat \<Rightarrow> string \<Rightarrow> FANUCProgram \<Rightarrow> FANUCProgram" where
  "parse_jump i line program =
     (case re_search jump_re line of
        None \<Rightarrow> program
      | Some g \<Rightarrow> program\<lparr> jumps := jumps program @ [(int_of_digits (group g 1), i)] \<rparr>)"

definition parse_call :: "nat \<Rightarrow> string \<Rightarrow> FANUCProgram \<Rightarrow> FANUCProgram" where
  "parse_call i line program =
     (case re_search call_re line of
        None \<Rightarrow> program
      | Some g \<Rightarrow> program\<lparr> calls := calls program @ [(group g 1, i)] \<rparr>)"

definition add_all :: "(int \<times> string) list \<Rightarrow> groups list \<Rightarrow> (int \<times> string) list" where
  "add_all s ms = foldl (\<lambda>s g. add_new (operand g) s) s ms"

definition parse_operands :: "string \<Rightarrow> FANUCProgram \<Rightarrow> FANUCProgram" where
  "parse_operands line program =
     program\<lparr>
       registers_used := add_all (registers_used program) (re_finditer (bracket_re ''R'') line),
       digital_inputs := add_all (digital_inputs program) (re_finditer (bracket_re ''DI'') line),
       digital_outputs := add_all (digital_outputs program) (re_finditer (bracket_re ''DO'') line),
       register_inputs := add_all (register_inputs program) (re_finditer (bracket_re ''RI'') line),
       register_outputs := add_all (register_outputs program) (re_finditer (bracket_re ''RO'') line),
       position_registers := add_all (position_registers program) (re_finditer (bracket_re ''PR'') line) \<rparr>"

text \<open>The body of the loop over the lines of the main code: \<open>i\<close> is the index of the line.\<close>

definition parse_code_line :: "nat \<Rightarrow> string \<Rightarrow> FANUCProgram \<Rightarrow> FANUCProgram" where
  "parse_code_line i raw program =
     (let line = strip raw in
      if skipped line then program
      else parse_operands line
             (parse_call i line
               (parse_jump i line
                 (parse_label i line (program\<lparr> code_lines := code_lines program @ [line] \<rparr>)))))"

fun parse_code_lines :: "nat \<Rightarrow> string list \<Rightarrow> FANUCProgram \<Rightarrow> FANUCProgram" where
  "parse_code_lines i [] program = program"
| "parse_code_lines i (raw # lines) program =
     parse_code_lines (Suc i) lines (parse_code_line i raw program)"

definition parse_code :: "FANUCProgram \<Rightarrow> string \<Rightarrow> FANUCProgram" where
  "parse_code program content =
     (case re_search mn_re content of
        None \<Rightarrow> program
      | Some g \<Rightarrow> parse_code_lines 0 (split_on (CHR 0x0A) (group g 1)) program)"

subsection \<open>Positions\<close>

definition pos_re :: "item list" where
  "pos_re = [Lit ''/POS'', GOpen 1, LazyStar AnyChar, GClose 1, Lit ''/END'']"

definition position_re :: "item list" where
  "position_re =
     [Lit ''P['', GOpen 1, One Digit, Star Digit, GClose 1,
      Opt [Lit [CHR '':'', CHR 0x22], GOpen 2, One (NotChar (CHR 0x22)), Star (NotChar (CHR 0x22)),
           GClose 2, Lit [CHR 0x22]],
      Lit '']'']"

definition parse_positions :: "FANUCProgram \<Rightarrow> string \<Rightarrow> FANUCProgram" where
  "parse_positions program content =
     (case re_search pos_re content of
        None \<Rightarrow> program
      | Some g \<Rightarrow>
          program\<lparr> positions := positions program @ map operand (re_finditer position_re (group g 1)) \<rparr>)"

subsection \<open>One file\<close>

text \<open>
  The file system is a map from paths to the bytes of the files. Opening a path that is
  not there raises; nothing else in the parse of one file does (the conversions to integers
  are applied to matches of digits only).
\<close>

datatype error = UnreadableSource string

type_synonym filesystem = "string \<rightharpoonup> string"

definition read_text :: "filesystem \<Rightarrow> string \<Rightarrow> error + string" where
  "read_text fs filepath =
     (case fs filepath of
        None \<Rightarrow> Inl (UnreadableSource filepath)
      | Some bytes \<Rightarrow> Inr (universal_newlines bytes))"

record FANUCParser =
  programs :: "(string \<times> FANUCProgram) list"

definition parse_content :: "string \<Rightarrow> string \<Rightarrow> FANUCProgram" where
  "parse_content fname content =
     calculate_statistics (classify_program
       (parse_positions
         (parse_code
           (parse_attributes
             (parse_header (new_program fname) content) content) content) content))"

definition parse_file :: "FANUCParser \<Rightarrow> filesystem \<Rightarrow> string \<Rightarrow> error + FANUCProgram" where
  "parse_file self fs filepath =
     (case read_text fs filepath of
        Inl e \<Rightarrow> Inl e
      | Inr content \<Rightarrow> Inr (parse_content (basename filepath) content))"


section \<open>The flow analyzer (classes FlowNode and FANUCFlowAnalyzer)\<close>

record FlowNode =
  label_num :: int
  label_name :: string
  instructions :: "string list"
  successors :: "int list"
  conditions :: "string list"

definition new_node :: "int \<Rightarrow> string \<Rightarrow> FlowNode" where
  "new_node n nm = \<lparr> label_num = n, label_name = nm, instructions = [], successors = [], conditions = [] \<rparr>"

text \<open>
  The nodes are objects: the dictionary \<open>flow_nodes\<close> and the variable \<open>current_node\<close> of the
  loop hold references to them. \<open>store\<close> is the list of all the nodes created so far, a
  reference is an index into it, and a new node goes to the end. The fields of the analyzer
  that the parse does not touch are left out.
\<close>

record FANUCFlowAnalyzer =
  store :: "FlowNode list"
  flow_nodes :: "int \<rightharpoonup> nat"
  error_nodes :: "int list"
  main_cycle_labels :: "int list"

definition new_flow_analyzer :: "FANUCFlowAnalyzer" where
  "new_flow_analyzer = \<lparr> store = [], flow_nodes = Map.empty, error_nodes = [], main_cycle_labels = [] \<rparr>"

definition if_re :: "item list" where
  "if_re = [Lit ''IF'', One Space, Star Space, GOpen 1, One NotNL, LazyStar NotNL, GClose 1, Lit '',JMP'']"

definition end_re :: "item list" where
  "end_re = [WordB, Lit ''END'', WordB]"

definition define_label :: "groups \<Rightarrow> FANUCFlowAnalyzer \<Rightarrow> FANUCFlowAnalyzer \<times> nat option" where
  "define_label g self =
     (let n = int_of_digits (group g 1);
          nm = strip (group g 2);
          a = length (store self);
          self = self\<lparr> store := store self @ [new_node n nm],
                       flow_nodes := (flow_nodes self)(n \<mapsto> a) \<rparr>
      in (if n = 10 \<or> n = 20 then self\<lparr> main_cycle_labels := main_cycle_labels self @ [n] \<rparr>
          else if 500 \<le> n \<and> n < 800 then self\<lparr> error_nodes := error_nodes self @ [n] \<rparr>
          else self,
          Some a))"

definition add_instruction :: "string \<Rightarrow> FlowNode \<Rightarrow> FlowNode" where
  "add_instruction line node =
     (let node = node\<lparr> instructions := instructions node @ [line] \<rparr> in
      case re_search jump_re line of
        None \<Rightarrow> node
      | Some g \<Rightarrow>
          (let node = node\<lparr> successors := successors node @ [int_of_digits (group g 1)] \<rparr> in
           case re_search if_re line of
             None \<Rightarrow> node
           | Some h \<Rightarrow> node\<lparr> conditions := conditions node @ [group h 1] \<rparr>))"

text \<open>The body of the loop: the state is the analyzer and the variable \<open>current_node\<close>.\<close>

definition flow_line :: "string \<Rightarrow> FANUCFlowAnalyzer \<times> nat option \<Rightarrow> FANUCFlowAnalyzer \<times> nat option" where
  "flow_line raw st =
     (let line = strip raw; self = fst st; current_node = snd st in
      if skipped line then st
      else
        case re_search (bracket_re ''LBL'') line of
          Some g \<Rightarrow> define_label g self
        | None \<Rightarrow>
            (case current_node of
               None \<Rightarrow> st
             | Some a \<Rightarrow>
                 (self\<lparr> store := (store self)[a := add_instruction line (store self ! a)] \<rparr>,
                  if re_search end_re line \<noteq> None then None else Some a)))"

definition flow_lines :: "string list \<Rightarrow> FANUCFlowAnalyzer \<times> nat option \<Rightarrow> FANUCFlowAnalyzer \<times> nat option" where
  "flow_lines lines st = foldl (\<lambda>st raw. flow_line raw st) st lines"

definition parse_program_content :: "FANUCFlowAnalyzer \<Rightarrow> string \<Rightarrow> FANUCFlowAnalyzer" where
  "parse_program_content self content =
     (case re_search mn_re content of
        None \<Rightarrow> self
      | Some g \<Rightarrow> fst (flow_lines (split_on (CHR 0x0A) (group g 1)) (self, None)))"

definition parse_program :: "FANUCFlowAnalyzer \<Rightarrow> filesystem \<Rightarrow> string \<Rightarrow> error + FANUCFlowAnalyzer" where
  "parse_program self fs program_file =
     (case read_text fs program_file of
        Inl e \<Rightarrow> Inl e
      | Inr content \<Rightarrow> Inr (parse_program_content self content))"

text \<open>The node that the dictionary gives for a label.\<close>

definition node_of :: "FANUCFlowAnalyzer \<Rightarrow> int \<Rightarrow> FlowNode option" where
  "node_of self n =
     (case flow_nodes self n of
        None \<Rightarrow> None
      | Some a \<Rightarrow> if a < length (store self) then Some (store self ! a) else None)"


section \<open>The analyzer over all programs (class FANUCAnalyzer)\<close>

text \<open>
  A dictionary that the program iterates over is a list of pairs in the order of the first
  insertion of each key; \<open>dict_set\<close> is \<^verbatim>\<open>d[k] = v\<close>. The dictionaries with a default value
  are maps: \<open>list_append\<close> is \<^verbatim>\<open>d[k].append(v)\<close> on a \<^verbatim>\<open>defaultdict(list)\<close> and \<open>table_add\<close> is
  \<^verbatim>\<open>d[k].add(v)\<close> on a \<^verbatim>\<open>defaultdict(set)\<close>.
\<close>

fun dict_set :: "'k \<Rightarrow> 'v \<Rightarrow> ('k \<times> 'v) list \<Rightarrow> ('k \<times> 'v) list" where
  "dict_set k v [] = [(k, v)]"
| "dict_set k v (kv # d) = (if fst kv = k then (k, v) # d else kv # dict_set k v d)"

definition list_append :: "('k \<rightharpoonup> 'v list) \<Rightarrow> 'k \<Rightarrow> 'v \<Rightarrow> ('k \<rightharpoonup> 'v list)" where
  "list_append d k v = d(k \<mapsto> (case d k of None \<Rightarrow> [] | Some vs \<Rightarrow> vs) @ [v])"

definition table_add :: "('k \<rightharpoonup> 'v set) \<Rightarrow> 'k \<Rightarrow> 'v \<Rightarrow> ('k \<rightharpoonup> 'v set)" where
  "table_add d k v = d(k \<mapsto> insert v (case d k of None \<Rightarrow> {} | Some vs \<Rightarrow> vs))"

text \<open>The dictionary \<open>io_map\<close> has the four keys DI, DO, RI and RO, each with a table; it is
  a function from the key to the table.\<close>

record FANUCAnalyzer =
  parser :: FANUCParser
  call_graph :: "string \<rightharpoonup> string list"
  register_map :: "int \<rightharpoonup> string set"
  io_map :: "string \<Rightarrow> (int \<rightharpoonup> string set)"

definition new_analyzer :: "FANUCParser \<Rightarrow> FANUCAnalyzer" where
  "new_analyzer prs =
     \<lparr> parser = prs, call_graph = Map.empty, register_map = Map.empty, io_map = (\<lambda>kind. Map.empty) \<rparr>"

definition build_call_graph :: "FANUCAnalyzer \<Rightarrow> FANUCAnalyzer" where
  "build_call_graph self =
     foldl (\<lambda>self np.
        foldl (\<lambda>self c. self\<lparr> call_graph := list_append (call_graph self) (fst np) (fst c) \<rparr>)
          self (calls (snd np)))
       self (programs (parser self))"

definition add_registers :: "(int \<rightharpoonup> string set) \<Rightarrow> (int \<times> string) list \<Rightarrow> (int \<rightharpoonup> string set)" where
  "add_registers table used =
     foldl (\<lambda>table r. if snd r \<noteq> [] then table_add table (fst r) (snd r) else table) table used"

definition build_register_map :: "FANUCAnalyzer \<Rightarrow> FANUCAnalyzer" where
  "build_register_map self =
     foldl (\<lambda>self np. self\<lparr> register_map := add_registers (register_map self) (registers_used (snd np)) \<rparr>)
       self (programs (parser self))"

definition add_io :: "string \<Rightarrow> (int \<times> string) list \<Rightarrow> FANUCAnalyzer \<Rightarrow> FANUCAnalyzer" where
  "add_io kind used self =
     self\<lparr> io_map := (io_map self)(kind := add_registers (io_map self kind) used) \<rparr>"

definition build_io_map :: "FANUCAnalyzer \<Rightarrow> FANUCAnalyzer" where
  "build_io_map self =
     foldl (\<lambda>self np.
        add_io ''RO'' (register_outputs (snd np))
          (add_io ''RI'' (register_inputs (snd np))
            (add_io ''DO'' (digital_outputs (snd np))
              (add_io ''DI'' (digital_inputs (snd np)) self))))
       self (programs (parser self))"

text \<open>
  \<open>analyze_all\<close> takes the sorted list of the paths that the directory listing gave. A file
  whose parse raises is reported and left out.
\<close>

definition analyze_file :: "filesystem \<Rightarrow> FANUCAnalyzer \<Rightarrow> string \<Rightarrow> FANUCAnalyzer" where
  "analyze_file fs self filepath =
     (case parse_file (parser self) fs filepath of
        Inl e \<Rightarrow> self
      | Inr program \<Rightarrow>
          self\<lparr> parser := (parser self)\<lparr> programs := dict_set (name program) program (programs (parser self)) \<rparr> \<rparr>)"

definition analyze_all :: "FANUCAnalyzer \<Rightarrow> filesystem \<Rightarrow> string list \<Rightarrow> FANUCAnalyzer" where
  "analyze_all self fs paths =
     build_io_map (build_register_map (build_call_graph (foldl (analyze_file fs) self paths)))"

subsection \<open>The call tree\<close>

text \<open>
  The state of one traversal: the set \<open>visited\<close>, and the lines written to the report, a
  line \<open>(indent, called)\<close> standing for the text of \<open>indent\<close> indentation steps, the branch
  mark and the name. The field \<open>expanded\<close> is not a variable of the program: it logs, in
  order, every name for which the traversal went beyond the test on \<open>visited\<close> and walked
  the callees.

  The recursion of the program is bounded by nothing but the test on \<open>visited\<close>, so the model
  takes the depth it may use as fuel and returns \<open>None\<close> when the fuel is used up.
\<close>

record tree_state =
  visited :: "string set"
  out :: "(nat \<times> string) list"
  expanded :: "string list"

definition start_state :: tree_state where
  "start_state = \<lparr> visited = {}, out = [], expanded = [] \<rparr>"

fun write_call_tree :: "nat \<Rightarrow> (string \<rightharpoonup> string list) \<Rightarrow> string \<Rightarrow> nat \<Rightarrow> tree_state \<Rightarrow> tree_state option"
and write_callees :: "nat \<Rightarrow> (string \<rightharpoonup> string list) \<Rightarrow> string list \<Rightarrow> nat \<Rightarrow> tree_state \<Rightarrow> tree_state option"
where
  "write_call_tree 0 g prog_name indent s = None"
| "write_call_tree (Suc fuel) g prog_name indent s =
     (if prog_name \<in> visited s then Some s
      else
        (let s = s\<lparr> visited := insert prog_name (visited s), expanded := expanded s @ [prog_name] \<rparr> in
         case g prog_name of
           None \<Rightarrow> Some s
         | Some cs \<Rightarrow> write_callees fuel g (sort (remdups cs)) indent s))"
| "write_callees fuel g [] indent s = Some s"
| "write_callees fuel g (called # cs) indent s =
     (case write_call_tree fuel g called (Suc indent) (s\<lparr> out := out s @ [(indent, called)] \<rparr>) of
        None \<Rightarrow> None
      | Some s' \<Rightarrow> write_callees fuel g cs indent s')"

text \<open>The number of lines that the expansion of a name writes.\<close>

definition fanout :: "(string \<rightharpoonup> string list) \<Rightarrow> string \<Rightarrow> nat" where
  "fanout g p = (case g p of None \<Rightarrow> 0 | Some cs \<Rightarrow> length (remdups cs))"


section \<open>Notions used in the statements\<close>

text \<open>The window of the label numbers reserved for error handling.\<close>

definition in_error_window :: "int \<Rightarrow> bool" where
  "in_error_window n = (500 \<le> n \<and> n < 800)"

definition error_labels_of :: "(int \<times> string \<times> nat) list \<Rightarrow> (int \<times> string) list" where
  "error_labels_of ls = map (\<lambda>l. (fst l, fst (snd l))) (filter (\<lambda>l. in_error_window (fst l)) ls)"

text \<open>The line feed, and a text made of lines.\<close>

definition nl :: string where
  "nl = [CHR 0x0A]"

definition unlines :: "string list \<Rightarrow> string" where
  "unlines ls = concat (map (\<lambda>l. l @ nl) ls)"


text \<open>
  A region of a file lies between an opening anchor and the nearest closing anchor after it.
  \<open>anchor_pair opening closings s\<close>: the text \<open>s\<close> has the opening anchor at some place and
  one of the closing anchors at some place after it.
\<close>

definition anchor_pair :: "string \<Rightarrow> string list \<Rightarrow> string \<Rightarrow> bool" where
  "anchor_pair opening closings s =
     list_ex (\<lambda>t. prefix opening t \<and>
                list_ex (\<lambda>u. list_ex (\<lambda>cl. prefix cl u) closings) (suffixes (drop (length opening) t)))
       (suffixes s)"


text \<open>
  The aliases that a list of operands gives for a number, and the aliases that the programs
  of a collection give for the number of a register: the names that are not empty.
  \<open>merged old new\<close> is the entry of a table after the names \<open>new\<close> were added to it.
\<close>

definition aliases_in :: "(int \<times> string) list \<Rightarrow> int \<Rightarrow> string set" where
  "aliases_in used n = set (map snd (filter (\<lambda>r. fst r = n \<and> snd r \<noteq> []) used))"

definition observed_aliases :: "(string \<times> FANUCProgram) list \<Rightarrow> int \<Rightarrow> string set" where
  "observed_aliases progs n = (\<Union>np \<in> set progs. aliases_in (registers_used (snd np)) n)"

definition merged :: "string set option \<Rightarrow> string set \<Rightarrow> string set option" where
  "merged old new = (if new = {} then old else Some (new \<union> (case old of None \<Rightarrow> {} | Some s \<Rightarrow> s)))"


text \<open>
  The region between a pair of anchors, in the words of the specification: the text after
  the first place where the opening anchor stands, up to the nearest place after it where
  one of the closing anchors stands; none when the opening anchor or, after it, every
  closing anchor is missing.
\<close>

fun after_first :: "string \<Rightarrow> string \<Rightarrow> string option" where
  "after_first pat [] = (if pat = [] then Some [] else None)"
| "after_first pat (x # xs) =
     (if prefix pat (x # xs) then Some (drop (length pat) (x # xs)) else after_first pat xs)"

fun before_first :: "string list \<Rightarrow> string \<Rightarrow> string option" where
  "before_first pats [] = (if list_ex (\<lambda>pat. prefix pat []) pats then Some [] else None)"
| "before_first pats (x # xs) =
     (if list_ex (\<lambda>pat. prefix pat (x # xs)) pats then Some []
      else map_option ((#) x) (before_first pats xs))"

definition region_of :: "string \<Rightarrow> string list \<Rightarrow> string \<Rightarrow> string option" where
  "region_of opening closings s =
     (case after_first opening s of None \<Rightarrow> None | Some t \<Rightarrow> before_first closings t)"


section \<open>What each step of the parse leaves alone\<close>

lemma parse_label_fields [simp]:
  "code_lines (parse_label i l p) = code_lines p"
  "jumps (parse_label i l p) = jumps p"
  "calls (parse_label i l p) = calls p"
  "positions (parse_label i l p) = positions p"
  "attributes (parse_label i l p) = attributes p"
  by (simp_all add: parse_label_def Let_def split: option.splits)

lemma parse_jump_fields [simp]:
  "code_lines (parse_jump i l p) = code_lines p"
  "labels (parse_jump i l p) = labels p"
  "errors (parse_jump i l p) = errors p"
  "calls (parse_jump i l p) = calls p"
  "positions (parse_jump i l p) = positions p"
  "attributes (parse_jump i l p) = attributes p"
  by (simp_all add: parse_jump_def split: option.splits)

lemma parse_call_fields [simp]:
  "code_lines (parse_call i l p) = code_lines p"
  "labels (parse_call i l p) = labels p"
  "errors (parse_call i l p) = errors p"
  "jumps (parse_call i l p) = jumps p"
  "positions (parse_call i l p) = positions p"
  "attributes (parse_call i l p) = attributes p"
  by (simp_all add: parse_call_def split: option.splits)

lemma parse_operands_fields [simp]:
  "code_lines (parse_operands l p) = code_lines p"
  "labels (parse_operands l p) = labels p"
  "errors (parse_operands l p) = errors p"
  "jumps (parse_operands l p) = jumps p"
  "calls (parse_operands l p) = calls p"
  "positions (parse_operands l p) = positions p"
  "attributes (parse_operands l p) = attributes p"
  by (simp_all add: parse_operands_def)

lemma code_lines_step:
  "code_lines (parse_code_line i raw p) =
   code_lines p @ (if skipped (strip raw) then [] else [strip raw])"
  by (simp add: parse_code_line_def Let_def)

lemma code_lines_loop:
  "code_lines (parse_code_lines i ls p) =
   code_lines p @ filter (\<lambda>l. \<not> skipped l) (map strip ls)"
  by (induction ls arbitrary: i p) (simp_all add: code_lines_step)

lemma flow_lines_append: "flow_lines (xs @ ys) st = flow_lines ys (flow_lines xs st)"
  by (simp add: flow_lines_def)

lemma flow_lines_Cons: "flow_lines (x # xs) st = flow_lines xs (flow_line x st)"
  by (simp add: flow_lines_def)

lemma flow_lines_Nil: "flow_lines [] st = st"
  by (simp add: flow_lines_def)

lemma skipped_step:
  "skipped (strip raw) \<Longrightarrow> parse_code_line i raw program = program \<and> flow_line raw st = st"
  by (simp add: parse_code_line_def flow_line_def)


section \<open>Classification by name\<close>

lemma main_re_match:
  "re_match main_re nm \<noteq> None \<longleftrightarrow>
     (\<exists>d1 d2 d3 rest. nm = ''A_1PA'' @ [d1, d2, d3] @ rest \<and>
        is_digit d1 \<and> is_digit d2 \<and> is_digit d3)"
  by (auto simp: re_match_def main_re_def prefix_def split: list.splits)

lemma program_type_cases:
  "program_type (classify_program p) \<in> {''main'', ''subprogram'', ''utility'', ''system'', ''other''}"
  by (simp add: classify_program_def split: option.splits)

lemma program_type_main:
  "program_type (classify_program p) = ''main'' \<longleftrightarrow> re_match main_re (name p) \<noteq> None"
  by (simp add: classify_program_def split: option.splits)

lemma program_type_other:
  "program_type (classify_program p) = ''other'' \<longleftrightarrow>
     re_match main_re (name p) = None \<and>
     \<not> list_ex (\<lambda>pre. contains pre (name p)) [''KER1_'', ''KER2_'', ''AFLG_'', ''PRINTEN'', ''BUF_''] \<and>
     \<not> List.member [''HOMING'', ''HOMEN'', ''HOMEN1'', ''TEKST'', ''FOLIE'', ''DUMPEN'', ''RUST''] (name p) \<and>
     \<not> (prefix ''ERR'' (name p) \<or> List.member [''LOGBOOK'', ''PMC''] (name p))"
  by (cases "re_match main_re (name p)") (auto simp: classify_program_def split: option.splits)

text \<open>
  Claim C5. A program is classified as main exactly when its name starts with \<open>A_1PA\<close> and
  three digits; so a name that is \<open>A_1PA\<close> and three digits is main, and a name that is
  \<open>A_1PA\<close> and only two more characters is not. The classification always gives one of the
  five tags, and it gives \<open>other\<close> exactly when none of the four rules before it matches.
\<close>

theorem classification_by_name:
  "(program_type (classify_program p) = ''main'' \<longleftrightarrow>
      (\<exists>d1 d2 d3 rest. name p = ''A_1PA'' @ [d1, d2, d3] @ rest \<and>
         is_digit d1 \<and> is_digit d2 \<and> is_digit d3)) \<and>
   (name p = ''A_1PA'' @ [c1, c2] \<longrightarrow> program_type (classify_program p) \<noteq> ''main'') \<and>
   program_type (classify_program p) \<in> {''main'', ''subprogram'', ''utility'', ''system'', ''other''} \<and>
   (program_type (classify_program p) = ''other'' \<longleftrightarrow>
      re_match main_re (name p) = None \<and>
      \<not> list_ex (\<lambda>pre. contains pre (name p)) [''KER1_'', ''KER2_'', ''AFLG_'', ''PRINTEN'', ''BUF_''] \<and>
      \<not> List.member [''HOMING'', ''HOMEN'', ''HOMEN1'', ''TEKST'', ''FOLIE'', ''DUMPEN'', ''RUST''] (name p) \<and>
      \<not> (prefix ''ERR'' (name p) \<or> List.member [''LOGBOOK'', ''PMC''] (name p)))"
proof -
  have a: "program_type (classify_program p) = ''main'' \<longleftrightarrow>
      (\<exists>d1 d2 d3 rest. name p = ''A_1PA'' @ [d1, d2, d3] @ rest \<and>
         is_digit d1 \<and> is_digit d2 \<and> is_digit d3)"
    by (simp only: program_type_main main_re_match)
  have b: "name p = ''A_1PA'' @ [c1, c2] \<longrightarrow> program_type (classify_program p) \<noteq> ''main''"
    unfolding a by auto
  show ?thesis
    using a b program_type_cases [of p] program_type_other [of p] by blast
qed

theorem classification_by_name_witness:
  "program_type (classify_program ((new_program ''a.LS'')\<lparr> name := ''A_1PA001'' \<rparr>)) = ''main'' \<and>
   program_type (classify_program ((new_program ''a.LS'')\<lparr> name := ''A_1PA00'' \<rparr>)) = ''other''"
proof -
  have d: "is_digit CHR ''0''" "is_digit CHR ''1''"
    by (simp_all add: is_digit_def)
  have "program_type (classify_program ((new_program ''a.LS'')\<lparr> name := ''A_1PA001'' \<rparr>)) = ''main''"
    using classification_by_name [of "(new_program ''a.LS'')\<lparr> name := ''A_1PA001'' \<rparr>"] d
    by simp
  moreover have "program_type (classify_program ((new_program ''a.LS'')\<lparr> name := ''A_1PA00'' \<rparr>)) = ''other''"
    using classification_by_name
      [of "(new_program ''a.LS'')\<lparr> name := ''A_1PA00'' \<rparr>" "CHR ''0''" "CHR ''0''"]
    by (simp add: re_match_def main_re_def)
  ultimately show ?thesis by simp
qed



section \<open>The regions of a file are parsed apart\<close>

lemma parse_code_line_frame:
  "parse_code_line i raw (p\<lparr> filename := f, name := n, attributes := a \<rparr>) =
   (parse_code_line i raw p)\<lparr> filename := f, name := n, attributes := a \<rparr>"
  by (simp add: parse_code_line_def parse_operands_def parse_call_def parse_jump_def
      parse_label_def Let_def split: option.splits)

lemma parse_code_lines_frame:
  "parse_code_lines i ls (p\<lparr> filename := f, name := n, attributes := a \<rparr>) =
   (parse_code_lines i ls p)\<lparr> filename := f, name := n, attributes := a \<rparr>"
  by (induction ls arbitrary: i p) (simp_all add: parse_code_line_frame)

lemma parse_code_frame:
  "parse_code (p\<lparr> filename := f, name := n, attributes := a \<rparr>) content =
   (parse_code p content)\<lparr> filename := f, name := n, attributes := a \<rparr>"
  by (simp add: parse_code_def parse_code_lines_frame split: option.splits)

lemma parse_header_eq:
  "parse_header p content = p\<lparr> filename := filename p, name := name (parse_header p content) \<rparr>"
  by (simp add: parse_header_def split: option.splits)

lemma parse_header_frame:
  "parse_header (p\<lparr> filename := f \<rparr>) content = (parse_header p content)\<lparr> filename := f \<rparr>"
  by (simp add: parse_header_def split: option.splits)

lemma parse_attribute_eq:
  "parse_attribute t p kp = p\<lparr> attributes := attributes (parse_attribute t p kp) \<rparr>"
  by (simp add: parse_attribute_def split: option.splits)

lemma parse_attribute_frame:
  "parse_attribute t (p\<lparr> filename := f, name := n \<rparr>) kp =
   (parse_attribute t p kp)\<lparr> filename := f, name := n \<rparr>"
  by (simp add: parse_attribute_def split: option.splits)

lemma foldl_parse_attribute_frame:
  "foldl (parse_attribute t) (p\<lparr> filename := f, name := n \<rparr>) kps =
   (foldl (parse_attribute t) p kps)\<lparr> filename := f, name := n \<rparr>"
  by (induction kps arbitrary: p) (simp_all add: parse_attribute_frame)

lemma foldl_parse_attribute_eq:
  "foldl (parse_attribute t) p kps = p\<lparr> attributes := attributes (foldl (parse_attribute t) p kps) \<rparr>"
proof (induction kps arbitrary: p)
  case Nil
  show ?case by simp
next
  case (Cons kp kps)
  have "foldl (parse_attribute t) p (kp # kps) = foldl (parse_attribute t) (parse_attribute t p kp) kps"
    by simp
  also have "\<dots> = (parse_attribute t p kp)\<lparr> attributes := attributes (foldl (parse_attribute t) (parse_attribute t p kp) kps) \<rparr>"
    by (rule Cons.IH)
  also have "\<dots> = p\<lparr> attributes := attributes (foldl (parse_attribute t) (parse_attribute t p kp) kps) \<rparr>"
    by (subst parse_attribute_eq) simp
  finally show ?case by simp
qed

lemma parse_attributes_eq:
  "parse_attributes p content = p\<lparr> attributes := attributes (parse_attributes p content) \<rparr>"
  unfolding parse_attributes_def
  by (cases "re_search attr_re content") (simp_all add: foldl_parse_attribute_eq[symmetric])

lemma parse_attributes_frame:
  "parse_attributes (p\<lparr> filename := f, name := n \<rparr>) content =
   (parse_attributes p content)\<lparr> filename := f, name := n \<rparr>"
  by (simp add: parse_attributes_def foldl_parse_attribute_frame split: option.splits)

lemma parse_positions_eq:
  "parse_positions p content = p\<lparr> positions := positions (parse_positions p content) \<rparr>"
  by (simp add: parse_positions_def split: option.splits)

lemma parse_positions_apart:
  "positions p = positions q \<Longrightarrow>
   positions (parse_positions p content) = positions (parse_positions q content)"
  by (simp add: parse_positions_def split: option.splits)

lemma positions_parse_code_line [simp]: "positions (parse_code_line i raw p) = positions p"
  by (simp add: parse_code_line_def Let_def)

lemma positions_parse_code_lines [simp]: "positions (parse_code_lines i ls p) = positions p"
  by (induction ls arbitrary: i p) simp_all

lemma positions_parse_code [simp]: "positions (parse_code p content) = positions p"
  by (simp add: parse_code_def split: option.splits)


lemma before_code:
  "parse_attributes (parse_header p content) content =
   p\<lparr> filename := filename p, name := name (parse_header p content),
      attributes := attributes (parse_attributes p content) \<rparr>"
proof -
  have "parse_attributes (parse_header p content) content =
        (parse_attributes p content)\<lparr> filename := filename p, name := name (parse_header p content) \<rparr>"
    by (subst parse_header_eq) (rule parse_attributes_frame)
  also have "\<dots> = (p\<lparr> attributes := attributes (parse_attributes p content) \<rparr>)
                    \<lparr> filename := filename p, name := name (parse_header p content) \<rparr>"
    by (subst parse_attributes_eq) simp
  finally show ?thesis by simp
qed

lemma code_after_header:
  "parse_code (parse_attributes (parse_header p content) content) content =
   (parse_code p content)\<lparr> filename := filename p, name := name (parse_header p content),
      attributes := attributes (parse_attributes p content) \<rparr>"
  by (subst before_code) (rule parse_code_frame)

lemma parse_positions_fields [simp]:
  "filename (parse_positions p c) = filename p"
  "name (parse_positions p c) = name p"
  "attributes (parse_positions p c) = attributes p"
  "labels (parse_positions p c) = labels p"
  "errors (parse_positions p c) = errors p"
  "jumps (parse_positions p c) = jumps p"
  "calls (parse_positions p c) = calls p"
  "code_lines (parse_positions p c) = code_lines p"
  "registers_used (parse_positions p c) = registers_used p"
  "digital_inputs (parse_positions p c) = digital_inputs p"
  "digital_outputs (parse_positions p c) = digital_outputs p"
  "register_inputs (parse_positions p c) = register_inputs p"
  "register_outputs (parse_positions p c) = register_outputs p"
  "position_registers (parse_positions p c) = position_registers p"
  by (simp_all add: parse_positions_def split: option.splits)

lemma classify_program_fields [simp]:
  "filename (classify_program p) = filename p"
  "name (classify_program p) = name p"
  "attributes (classify_program p) = attributes p"
  "labels (classify_program p) = labels p"
  "errors (classify_program p) = errors p"
  "jumps (classify_program p) = jumps p"
  "calls (classify_program p) = calls p"
  "code_lines (classify_program p) = code_lines p"
  "positions (classify_program p) = positions p"
  "registers_used (classify_program p) = registers_used p"
  "digital_inputs (classify_program p) = digital_inputs p"
  "digital_outputs (classify_program p) = digital_outputs p"
  "register_inputs (classify_program p) = register_inputs p"
  "register_outputs (classify_program p) = register_outputs p"
  "position_registers (classify_program p) = position_registers p"
  by (simp_all add: classify_program_def split: option.splits)

lemma calculate_statistics_fields [simp]:
  "filename (calculate_statistics p) = filename p"
  "name (calculate_statistics p) = name p"
  "attributes (calculate_statistics p) = attributes p"
  "labels (calculate_statistics p) = labels p"
  "errors (calculate_statistics p) = errors p"
  "jumps (calculate_statistics p) = jumps p"
  "calls (calculate_statistics p) = calls p"
  "code_lines (calculate_statistics p) = code_lines p"
  "positions (calculate_statistics p) = positions p"
  "registers_used (calculate_statistics p) = registers_used p"
  "digital_inputs (calculate_statistics p) = digital_inputs p"
  "digital_outputs (calculate_statistics p) = digital_outputs p"
  "register_inputs (calculate_statistics p) = register_inputs p"
  "register_outputs (calculate_statistics p) = register_outputs p"
  "position_registers (calculate_statistics p) = position_registers p"
  "program_type (calculate_statistics p) = program_type p"
  by (simp_all add: calculate_statistics_def)

text \<open>Every region of the result is what the parse of that region alone gives.\<close>

lemma parse_content_code_fields:
  "labels (parse_content f c) = labels (parse_code (new_program f) c)"
  "errors (parse_content f c) = errors (parse_code (new_program f) c)"
  "jumps (parse_content f c) = jumps (parse_code (new_program f) c)"
  "calls (parse_content f c) = calls (parse_code (new_program f) c)"
  "code_lines (parse_content f c) = code_lines (parse_code (new_program f) c)"
  "registers_used (parse_content f c) = registers_used (parse_code (new_program f) c)"
  "digital_inputs (parse_content f c) = digital_inputs (parse_code (new_program f) c)"
  "digital_outputs (parse_content f c) = digital_outputs (parse_code (new_program f) c)"
  "register_inputs (parse_content f c) = register_inputs (parse_code (new_program f) c)"
  "register_outputs (parse_content f c) = register_outputs (parse_code (new_program f) c)"
  "position_registers (parse_content f c) = position_registers (parse_code (new_program f) c)"
  by (simp_all add: parse_content_def code_after_header)

lemma parse_content_attributes:
  "attributes (parse_content f c) = attributes (parse_attributes (new_program f) c)"
  by (simp add: parse_content_def code_after_header)

lemma parse_content_name:
  "name (parse_content f c) = name (parse_header (new_program f) c)"
  by (simp add: parse_content_def code_after_header)

lemma parse_content_positions:
  "positions (parse_content f c) = positions (parse_positions (new_program f) c)"
proof -
  have "positions (parse_content f c) =
        positions (parse_positions (parse_code (parse_attributes (parse_header (new_program f) c) c) c) c)"
    by (simp add: parse_content_def)
  also have "\<dots> = positions (parse_positions (new_program f) c)"
    by (rule parse_positions_apart) (simp add: code_after_header)
  finally show ?thesis .
qed


section \<open>Error labels\<close>

lemma parse_label_errors:
  "errors p = error_labels_of (labels p) \<Longrightarrow>
   errors (parse_label i l p) = error_labels_of (labels (parse_label i l p))"
  by (simp add: parse_label_def Let_def error_labels_of_def in_error_window_def split: option.splits)

lemma parse_code_line_errors:
  "errors p = error_labels_of (labels p) \<Longrightarrow>
   errors (parse_code_line i raw p) = error_labels_of (labels (parse_code_line i raw p))"
  by (simp add: parse_code_line_def Let_def parse_label_errors)

lemma parse_code_lines_errors:
  "errors p = error_labels_of (labels p) \<Longrightarrow>
   errors (parse_code_lines i ls p) = error_labels_of (labels (parse_code_lines i ls p))"
  by (induction ls arbitrary: i p) (simp_all add: parse_code_line_errors)

lemma parse_code_errors:
  "errors p = error_labels_of (labels p) \<Longrightarrow>
   errors (parse_code p content) = error_labels_of (labels (parse_code p content))"
  by (simp add: parse_code_def parse_code_lines_errors split: option.splits)

lemma parse_content_errors:
  "errors (parse_content fname content) = error_labels_of (labels (parse_content fname content))"
  unfolding parse_content_code_fields
  by (rule parse_code_errors) (simp add: new_program_def error_labels_of_def)

lemma define_label_errors:
  "error_nodes self = filter in_error_window (map label_num (store self)) \<Longrightarrow>
   error_nodes (fst (define_label g self)) =
   filter in_error_window (map label_num (store (fst (define_label g self))))"
  by (simp add: define_label_def Let_def new_node_def in_error_window_def)

lemma label_num_add_instruction [simp]: "label_num (add_instruction l nd) = label_num nd"
  by (simp add: add_instruction_def Let_def split: option.splits)

lemma map_label_num_update:
  "map label_num (st[a := add_instruction l (st ! a)]) = map label_num st"
proof (cases "a < length st")
  case True
  then show ?thesis by (auto simp: list_eq_iff_nth_eq nth_list_update)
next
  case False
  then show ?thesis by (simp add: list_update_beyond)
qed

lemma flow_line_errors:
  "error_nodes (fst st) = filter in_error_window (map label_num (store (fst st))) \<Longrightarrow>
   error_nodes (fst (flow_line raw st)) =
   filter in_error_window (map label_num (store (fst (flow_line raw st))))"
  by (simp add: flow_line_def Let_def define_label_errors map_label_num_update split: option.splits)

lemma flow_lines_errors:
  "error_nodes (fst st) = filter in_error_window (map label_num (store (fst st))) \<Longrightarrow>
   error_nodes (fst (flow_lines ls st)) =
   filter in_error_window (map label_num (store (fst (flow_lines ls st))))"
  by (induction ls arbitrary: st) (simp_all add: flow_lines_Cons flow_lines_Nil flow_line_errors)

lemma parse_program_content_errors:
  "error_nodes (parse_program_content new_flow_analyzer content) =
   filter in_error_window (map label_num (store (parse_program_content new_flow_analyzer content)))"
proof (cases "re_search mn_re content")
  case None
  then show ?thesis by (simp add: parse_program_content_def new_flow_analyzer_def)
next
  case (Some g)
  have "error_nodes (fst (flow_lines (split_on (CHR 0x0A) (group g 1)) (new_flow_analyzer, None))) =
        filter in_error_window (map label_num
          (store (fst (flow_lines (split_on (CHR 0x0A) (group g 1)) (new_flow_analyzer, None)))))"
    by (rule flow_lines_errors) (simp add: new_flow_analyzer_def)
  with Some show ?thesis by (simp add: parse_program_content_def)
qed

text \<open>
  Claim C4. In the result of the parse of a file, a pair of a number and a name is among the
  error labels exactly when it is among the labels and the number is at least 500 and less
  than 800; in the flow graph, a number is among the error nodes exactly when a node was
  created for it and the number is at least 500 and less than 800. Nothing but the number
  decides.
\<close>

theorem error_window_classification:
  "((n, nm) \<in> set (errors (parse_content fname content)) \<longleftrightarrow>
      (\<exists>i. (n, nm, i) \<in> set (labels (parse_content fname content))) \<and> 500 \<le> n \<and> n < 800) \<and>
   (n \<in> set (error_nodes (parse_program_content new_flow_analyzer content)) \<longleftrightarrow>
      n \<in> label_num ` set (store (parse_program_content new_flow_analyzer content)) \<and>
      500 \<le> n \<and> n < 800)"
proof -
  have "(n, nm) \<in> set (error_labels_of ls) \<longleftrightarrow> (\<exists>i. (n, nm, i) \<in> set ls) \<and> 500 \<le> n \<and> n < 800"
    for ls :: "(int \<times> string \<times> nat) list"
    by (force simp: error_labels_of_def in_error_window_def image_iff)
  moreover have "n \<in> set (filter in_error_window xs) \<longleftrightarrow> n \<in> set xs \<and> 500 \<le> n \<and> n < 800"
    for xs :: "int list"
    by (auto simp: in_error_window_def)
  ultimately show ?thesis
    by (simp add: parse_content_errors parse_program_content_errors in_error_window_def)
qed

theorem error_window_classification_witness:
  "map fst (labels (parse_content ''a.LS'' (unlines [''/MN'', ''LBL[499]'', ''LBL[500]'', ''LBL[799]'', ''LBL[800]'', ''/END'']))) =
     [499, 500, 799, 800] \<and>
   (499, []) \<notin> set (errors (parse_content ''a.LS'' (unlines [''/MN'', ''LBL[499]'', ''LBL[500]'', ''LBL[799]'', ''LBL[800]'', ''/END'']))) \<and>
   (500, []) \<in> set (errors (parse_content ''a.LS'' (unlines [''/MN'', ''LBL[499]'', ''LBL[500]'', ''LBL[799]'', ''LBL[800]'', ''/END'']))) \<and>
   (799, []) \<in> set (errors (parse_content ''a.LS'' (unlines [''/MN'', ''LBL[499]'', ''LBL[500]'', ''LBL[799]'', ''LBL[800]'', ''/END'']))) \<and>
   (800, []) \<notin> set (errors (parse_content ''a.LS'' (unlines [''/MN'', ''LBL[499]'', ''LBL[500]'', ''LBL[799]'', ''LBL[800]'', ''/END''])))"
proof -
  let ?c = "unlines [''/MN'', ''LBL[499]'', ''LBL[500]'', ''LBL[799]'', ''LBL[800]'', ''/END'']"
  have l: "labels (parse_content ''a.LS'' ?c) = [(499, [], 1), (500, [], 2), (799, [], 3), (800, [], 4)]"
    by code_simp
  show ?thesis
    using error_window_classification [of 499 "[]" "''a.LS''" ?c]
      error_window_classification [of 500 "[]" "''a.LS''" ?c]
      error_window_classification [of 799 "[]" "''a.LS''" ?c]
      error_window_classification [of 800 "[]" "''a.LS''" ?c]
    by (simp add: l)
qed


section \<open>Skipped lines\<close>

text \<open>
  Claim C10. A line of the main code that is empty after stripping, or whose stripped form
  starts with the comment mark, changes nothing: the step of either loop returns the state it
  was given, so no code line, label, jump, call, operand or instruction comes from it; and
  the code lines of the program and the whole flow graph are the same as if the line were
  not in the text.
\<close>

theorem skipped_line_extracts_nothing:
  assumes "skipped (strip raw)"
  shows "parse_code_line i raw program = program \<and>
         flow_line raw st = st \<and>
         code_lines (parse_code_lines i (before @ raw # after) program) =
           code_lines (parse_code_lines i (before @ after) program) \<and>
         flow_lines (before @ raw # after) st = flow_lines (before @ after) st"
  using assms
  by (simp add: skipped_step code_lines_loop flow_lines_append flow_lines_Cons)

theorem skipped_line_extracts_nothing_witness:
  "skipped (strip ''  ! JMP LBL[5] R[1:x]'') \<and>
   parse_code_line 3 ''  ! JMP LBL[5] R[1:x]'' (new_program ''a.LS'') = new_program ''a.LS'' \<and>
   flow_line ''  ! JMP LBL[5] R[1:x]'' (new_flow_analyzer, None) = (new_flow_analyzer, None) \<and>
   skipped (strip ''   '')"
proof -
  have s: "skipped (strip ''  ! JMP LBL[5] R[1:x]'')" "skipped (strip ''   '')"
    by (simp_all add: skipped_def strip_def is_space_def)
  show ?thesis
    using s skipped_line_extracts_nothing [OF s(1), of 3 "new_program ''a.LS''" "(new_flow_analyzer, None)" "[]" "[]"]
    by simp
qed



section \<open>Statistics\<close>

lemma new_program_filename:
  "new_program f = (new_program g)\<lparr> filename := f, name := [], attributes := Map.empty \<rparr>"
  by (simp add: new_program_def)

lemma parse_code_new_program:
  "parse_code (new_program f) c = (parse_code (new_program g) c)\<lparr> filename := f, name := [], attributes := Map.empty \<rparr>"
  by (subst new_program_filename [of f g]) (rule parse_code_frame)

lemma calculate_statistics_idem: "calculate_statistics (calculate_statistics p) = calculate_statistics p"
  by (simp add: calculate_statistics_def)

lemma statistics_parse_content:
  "statistics (parse_content f c) =
     [(''total_lines'', length (code_lines (parse_code (new_program f) c))),
      (''label_count'', length (labels (parse_code (new_program f) c))),
      (''call_count'', length (calls (parse_code (new_program f) c))),
      (''jump_count'', length (jumps (parse_code (new_program f) c))),
      (''position_count'', length (positions (parse_positions (new_program f) c))),
      (''register_count'', length (registers_used (parse_code (new_program f) c))),
      (''di_count'', length (digital_inputs (parse_code (new_program f) c))),
      (''do_count'', length (digital_outputs (parse_code (new_program f) c))),
      (''ri_count'', length (register_inputs (parse_code (new_program f) c))),
      (''ro_count'', length (register_outputs (parse_code (new_program f) c))),
      (''error_labels'', length (errors (parse_code (new_program f) c)))]"
proof -
  have "parse_content f c = calculate_statistics (parse_content f c)"
    by (simp add: parse_content_def calculate_statistics_idem)
  then have "statistics (parse_content f c) = statistics (calculate_statistics (parse_content f c))"
    by simp
  also have "\<dots> = [(''total_lines'', length (code_lines (parse_content f c))),
      (''label_count'', length (labels (parse_content f c))),
      (''call_count'', length (calls (parse_content f c))),
      (''jump_count'', length (jumps (parse_content f c))),
      (''position_count'', length (positions (parse_content f c))),
      (''register_count'', length (registers_used (parse_content f c))),
      (''di_count'', length (digital_inputs (parse_content f c))),
      (''do_count'', length (digital_outputs (parse_content f c))),
      (''ri_count'', length (register_inputs (parse_content f c))),
      (''ro_count'', length (register_outputs (parse_content f c))),
      (''error_labels'', length (errors (parse_content f c)))]"
    by (simp add: calculate_statistics_def)
  finally show ?thesis
    by (simp only: parse_content_code_fields parse_content_positions)
qed

lemma parse_code_any_name:
  "code_lines (parse_code (new_program f) c) = code_lines (parse_code (new_program g) c)"
  "labels (parse_code (new_program f) c) = labels (parse_code (new_program g) c)"
  "calls (parse_code (new_program f) c) = calls (parse_code (new_program g) c)"
  "jumps (parse_code (new_program f) c) = jumps (parse_code (new_program g) c)"
  "registers_used (parse_code (new_program f) c) = registers_used (parse_code (new_program g) c)"
  "digital_inputs (parse_code (new_program f) c) = digital_inputs (parse_code (new_program g) c)"
  "digital_outputs (parse_code (new_program f) c) = digital_outputs (parse_code (new_program g) c)"
  "register_inputs (parse_code (new_program f) c) = register_inputs (parse_code (new_program g) c)"
  "register_outputs (parse_code (new_program f) c) = register_outputs (parse_code (new_program g) c)"
  "errors (parse_code (new_program f) c) = errors (parse_code (new_program g) c)"
  by (simp_all add: parse_code_new_program [where f = f and g = g])

lemma statistics_any_name: "statistics (parse_content f c) = statistics (parse_content g c)"
proof -
  have "positions (parse_positions (new_program f) c) = positions (parse_positions (new_program g) c)"
    by (rule parse_positions_apart) (simp add: new_program_def)
  then show ?thesis
    unfolding statistics_parse_content
    by (simp only: parse_code_any_name [of f c g])
qed

text \<open>
  Claim C9. Two parses of files with the same bytes give the same statistics, every field of
  them, whatever the state of the parser, the rest of the file system and the path of the
  file are (so also when the names are the same); and both parses return a program.
\<close>

theorem parse_is_deterministic:
  assumes "fs1 path1 = Some bytes" and "fs2 path2 = Some bytes"
  shows "\<exists>p1 p2. parse_file self1 fs1 path1 = Inr p1 \<and> parse_file self2 fs2 path2 = Inr p2 \<and>
           statistics p1 = statistics p2"
  using assms statistics_any_name [of "basename path1" "universal_newlines bytes" "basename path2"]
  by (simp add: parse_file_def read_text_def)

theorem parse_is_deterministic_witness:
  "\<exists>p1 p2.
     parse_file \<lparr> programs = [] \<rparr>
       [''d/a.LS'' \<mapsto> unlines [''/PROG A'', ''/MN'', ''LBL[1]'', ''R[2:x]=1'', ''/END'']] ''d/a.LS'' = Inr p1 \<and>
     parse_file \<lparr> programs = [(''OLD'', new_program ''o.LS'')] \<rparr>
       [''e/a.LS'' \<mapsto> unlines [''/PROG A'', ''/MN'', ''LBL[1]'', ''R[2:x]=1'', ''/END'']] ''e/a.LS'' = Inr p2 \<and>
     statistics p1 = statistics p2"
  by (rule parse_is_deterministic) simp_all


section \<open>Missing sections\<close>

lemma lazy_any_match:
  assumes "\<And>p u. (match_here rest p u opn cap = None) = (\<not> Q u)"
  shows "(match_here (LazyStar AnyChar # rest) p s opn cap = None) = (\<not> list_ex Q (suffixes s))"
proof (induction s arbitrary: p)
  case Nil
  show ?case using assms [of p "[]"] by (cases "match_here rest p [] opn cap") auto
next
  case (Cons x xs)
  show ?case
    using assms [of p "x # xs"] Cons.IH [of "Some x"]
    by (cases "match_here rest p (x # xs) opn cap") auto
qed

lemma search_from_iff:
  assumes "\<And>p u. (match_here r p u Map.empty Map.empty = None) = (\<not> M u)"
  shows "(search_from r p s = None) = (\<not> list_ex M (suffixes s))"
proof (induction s arbitrary: p)
  case Nil
  show ?case using assms [of p "[]"] by simp
next
  case (Cons x xs)
  show ?case
    using assms [of p "x # xs"] Cons.IH [of "Some x"]
    by (cases "match_here r p (x # xs) Map.empty Map.empty") auto
qed

lemma section_re_search:
  assumes "\<And>p u opn cap. (match_here closing p u opn cap = None) = (\<not> list_ex (\<lambda>cl. prefix cl u) closings)"
  shows "(re_search (Lit opening # GOpen 1 # LazyStar AnyChar # GClose 1 # closing) s = None) =
         (\<not> anchor_pair opening closings s)"
proof -
  have lazy: "(match_here (LazyStar AnyChar # GClose i # closing) p v opn cap = None) =
              (\<not> list_ex (\<lambda>u. list_ex (\<lambda>cl. prefix cl u) closings) (suffixes v))" for i p v opn cap
    by (rule lazy_any_match) (simp add: assms)
  have "(match_here (Lit opening # GOpen 1 # LazyStar AnyChar # GClose 1 # closing) p u Map.empty Map.empty = None) =
        (\<not> (prefix opening u \<and>
         list_ex (\<lambda>u. list_ex (\<lambda>cl. prefix cl u) closings) (suffixes (drop (length opening) u))))" for p u
    by (simp add: lazy del: match_here.simps(5))
  from search_from_iff [of _ "\<lambda>u. prefix opening u \<and>
         list_ex (\<lambda>u. list_ex (\<lambda>cl. prefix cl u) closings) (suffixes (drop (length opening) u))", OF this]
  show ?thesis
    by (simp add: re_search_def anchor_pair_def)
qed

lemma attr_re_search: "(re_search attr_re s = None) = (\<not> anchor_pair ''/ATTR'' [''/APPL'', ''/MN''] s)"
  unfolding attr_re_def
  by (rule section_re_search) (auto simp: prefix_def)

lemma mn_re_search: "(re_search mn_re s = None) = (\<not> anchor_pair ''/MN'' [''/POS'', ''/END''] s)"
  unfolding mn_re_def
  by (rule section_re_search) (auto simp: prefix_def)

lemma pos_re_search: "(re_search pos_re s = None) = (\<not> anchor_pair ''/POS'' [''/END''] s)"
  unfolding pos_re_def
  by (rule section_re_search) (auto simp: prefix_def)

lemma no_attributes:
  "\<not> anchor_pair ''/ATTR'' [''/APPL'', ''/MN''] content \<Longrightarrow>
   attributes (parse_content fname content) = Map.empty"
  by (simp add: parse_content_attributes parse_attributes_def attr_re_search [symmetric] new_program_def)

lemma no_code:
  assumes "\<not> anchor_pair ''/MN'' [''/POS'', ''/END''] content"
  shows "code_lines (parse_content fname content) = []"
    and "labels (parse_content fname content) = []"
    and "errors (parse_content fname content) = []"
    and "jumps (parse_content fname content) = []"
    and "calls (parse_content fname content) = []"
    and "registers_used (parse_content fname content) = []"
    and "digital_inputs (parse_content fname content) = []"
    and "digital_outputs (parse_content fname content) = []"
    and "register_inputs (parse_content fname content) = []"
    and "register_outputs (parse_content fname content) = []"
    and "position_registers (parse_content fname content) = []"
  using assms
  by (simp_all add: parse_content_code_fields parse_code_def mn_re_search [symmetric] new_program_def)

lemma no_positions:
  "\<not> anchor_pair ''/POS'' [''/END''] content \<Longrightarrow> positions (parse_content fname content) = []"
  by (simp add: parse_content_positions parse_positions_def pos_re_search [symmetric] new_program_def)


lemma contains_suffixes: "contains pat s = list_ex (prefix pat) (suffixes s)"
  by (induction s) (auto simp: list_ex_iff)

lemma anchor_pair_closing:
  assumes "anchor_pair opening closings s"
  shows "list_ex (\<lambda>cl. contains cl s) closings"
proof -
  from assms obtain t u cl where t: "suffix t s" and u: "suffix u (drop (length opening) t)"
    and cl: "cl \<in> set closings" "prefix cl u"
    by (auto simp: anchor_pair_def list_ex_iff in_set_suffixes)
  have "suffix u t" using u suffix_drop suffix_order.trans by blast
  with t have "suffix u s" using suffix_order.trans by blast
  then have "u \<in> set (suffixes s)" by (simp add: in_set_suffixes)
  with cl show ?thesis
    unfolding contains_suffixes list_ex_iff by blast
qed

lemma no_closing_no_attributes:
  assumes "\<not> contains ''/APPL'' content" and "\<not> contains ''/MN'' content"
  shows "attributes (parse_content fname content) = Map.empty"
proof -
  have "\<not> anchor_pair ''/ATTR'' [''/APPL'', ''/MN''] content"
    using anchor_pair_closing [of "''/ATTR''" "[''/APPL'', ''/MN'']" content] assms by auto
  then show ?thesis by (rule no_attributes)
qed

lemma before_first_None:
  "(before_first pats t = None) = (\<not> list_ex (\<lambda>u. list_ex (\<lambda>cl. prefix cl u) pats) (suffixes t))"
  by (induction t) auto

lemma before_first_suffix:
  assumes "before_first pats t = None" and "suffix u t"
  shows "before_first pats u = None"
  using assms unfolding before_first_None list_ex_iff
  by (meson in_set_suffixes suffix_order.trans)

lemma after_first_drop: "after_first pat s = Some t \<Longrightarrow> \<exists>k. t = drop (k + length pat) s"
proof (induction s)
  case Nil
  then show ?case by (auto split: if_splits)
next
  case (Cons x xs)
  show ?case
  proof (cases "prefix pat (x # xs)")
    case True
    with Cons.prems have "t = drop (0 + length pat) (x # xs)" by simp
    then show ?thesis by blast
  next
    case False
    with Cons.prems have "after_first pat xs = Some t" by simp
    from Cons.IH [OF this] obtain k where "t = drop (k + length pat) xs" by blast
    then have "t = drop (Suc k + length pat) (x # xs)" by simp
    then show ?thesis by blast
  qed
qed

lemma lazy_any_region:
  assumes none: "\<And>p u opn cap. (match_here closing p u opn cap = None) = (\<not> list_ex (\<lambda>cl. prefix cl u) closings)"
    and some: "\<And>p u opn cap res. match_here closing p u opn cap = Some res \<Longrightarrow> fst res = cap"
    and o: "opn i = Some (b @ v)"
  shows "map_option (\<lambda>res. fst res i) (match_here (LazyStar AnyChar # GClose i # closing) p v opn cap) =
         map_option (\<lambda>a. Some (b @ a)) (before_first closings v)"
  using o
proof (induction v arbitrary: b p)
  case Nil
  show ?case
  proof (cases "match_here closing p [] opn (cap(i \<mapsto> b))")
    case None
    then show ?thesis using Nil none [of p "[]" opn "cap(i \<mapsto> b)"] by simp
  next
    case (Some res)
    then show ?thesis using Nil none [of p "[]" opn "cap(i \<mapsto> b)"] some [OF Some] by simp
  qed
next
  case (Cons x xs)
  have o': "opn i = Some ((b @ [x]) @ xs)" using Cons.prems by simp
  show ?case
  proof (cases "match_here closing p (x # xs) opn (cap(i \<mapsto> b))")
    case None
    then show ?thesis
      using Cons.prems none [of p "x # xs" opn "cap(i \<mapsto> b)"] Cons.IH [OF o', of "Some x"]
      by (simp add: option.map_comp comp_def)
  next
    case (Some res)
    then show ?thesis
      using Cons.prems none [of p "x # xs" opn "cap(i \<mapsto> b)"] some [OF Some] by simp
  qed
qed

lemma section_match_region:
  assumes none: "\<And>p u opn cap. (match_here closing p u opn cap = None) = (\<not> list_ex (\<lambda>cl. prefix cl u) closings)"
    and some: "\<And>p u opn cap res. match_here closing p u opn cap = Some res \<Longrightarrow> fst res = cap"
  shows "map_option (\<lambda>res. group (fst res) 1)
           (match_here (Lit opening # GOpen 1 # LazyStar AnyChar # GClose 1 # closing) p u Map.empty Map.empty) =
         (if prefix opening u then before_first closings (drop (length opening) u) else None)"
proof -
  have "map_option (\<lambda>res. fst res i)
          (match_here (LazyStar AnyChar # GClose i # closing) q v (Map.empty(i \<mapsto> v)) Map.empty) =
        map_option (\<lambda>a. Some ([] @ a)) (before_first closings v)" for q v i
    by (rule lazy_any_region [OF none some]) simp_all
  then have l: "map_option (\<lambda>res. group (fst res) i)
          (match_here (LazyStar AnyChar # GClose i # closing) q v (Map.empty(i \<mapsto> v)) Map.empty) =
        before_first closings v" for q v i
    using option.map_comp [of "\<lambda>g. case g of None \<Rightarrow> [] | Some s \<Rightarrow> s" "\<lambda>res. fst res i"
        "match_here (LazyStar AnyChar # GClose i # closing) q v (Map.empty(i \<mapsto> v)) Map.empty", symmetric]
    by (simp add: group_def comp_def option.map_comp option.map_ident)
  show ?thesis
    by (simp add: l del: match_here.simps(5))
qed

lemma section_region:
  assumes none: "\<And>p u opn cap. (match_here closing p u opn cap = None) = (\<not> list_ex (\<lambda>cl. prefix cl u) closings)"
    and some: "\<And>p u opn cap res. match_here closing p u opn cap = Some res \<Longrightarrow> fst res = cap"
  shows "map_option (\<lambda>g. group g 1)
           (re_search (Lit opening # GOpen 1 # LazyStar AnyChar # GClose 1 # closing) s) =
         region_of opening closings s"
proof -
  let ?r = "Lit opening # GOpen 1 # LazyStar AnyChar # GClose 1 # closing"
  have m: "map_option (\<lambda>res. group (fst res) 1) (match_here ?r p u Map.empty Map.empty) =
           (if prefix opening u then before_first closings (drop (length opening) u) else None)" for p u
    by (rule section_match_region [OF none some])
  have "map_option (\<lambda>res. group (fst res) 1) (search_from ?r p s) = region_of opening closings s" for p
  proof (induction s arbitrary: p)
    case Nil
    show ?case using m [of p "[]"] by (auto simp: region_of_def simp del: match_here.simps)
  next
    case (Cons x xs)
    show ?case
    proof (cases "match_here ?r p (x # xs) Map.empty Map.empty")
      case (Some res)
      then show ?thesis using m [of p "x # xs"]
        by (auto simp: region_of_def simp del: match_here.simps split: if_splits)
    next
      case None
      show ?thesis
      proof (cases "prefix opening (x # xs)")
        case False
        then show ?thesis using None Cons.IH [of "Some x"]
          by (simp add: region_of_def del: match_here.simps)
      next
        case True
        with None m [of p "x # xs"]
        have bf: "before_first closings (drop (length opening) (x # xs)) = None"
          by (simp del: match_here.simps)
        have "region_of opening closings xs = None"
        proof (cases "after_first opening xs")
          case None
          then show ?thesis by (simp add: region_of_def)
        next
          case (Some t)
          from after_first_drop [OF this] obtain k where "t = drop (k + length opening) xs" by blast
          then have "t = drop (Suc k) (drop (length opening) (x # xs))"
            by (simp add: add.commute)
          then have "suffix t (drop (length opening) (x # xs))"
            using suffix_drop by metis
          from before_first_suffix [OF bf this] Some show ?thesis by (simp add: region_of_def)
        qed
        with bf True None Cons.IH [of "Some x"] show ?thesis
          by (simp add: region_of_def del: match_here.simps)
      qed
    qed
  qed
  then show ?thesis
    by (simp add: re_search_def option.map_comp comp_def)
qed

lemma attr_region_of:
  "map_option (\<lambda>g. group g 1) (re_search attr_re s) = region_of ''/ATTR'' [''/APPL'', ''/MN''] s"
  unfolding attr_re_def
  by (rule section_region) (auto simp: prefix_def split: if_splits option.splits)

lemma mn_region_of:
  "map_option (\<lambda>g. group g 1) (re_search mn_re s) = region_of ''/MN'' [''/POS'', ''/END''] s"
  unfolding mn_re_def
  by (rule section_region) (auto simp: prefix_def split: if_splits option.splits)

lemma pos_region_of:
  "map_option (\<lambda>g. group g 1) (re_search pos_re s) = region_of ''/POS'' [''/END''] s"
  unfolding pos_re_def
  by (rule section_region) (auto simp: prefix_def split: if_splits option.splits)

lemma found_attributes:
  assumes "anchor_pair ''/ATTR'' [''/APPL'', ''/MN''] content"
  shows "\<exists>region. region_of ''/ATTR'' [''/APPL'', ''/MN''] content = Some region \<and>
           attributes (parse_content fname content) =
           attributes (foldl (parse_attribute region) (new_program fname) patterns)"
proof -
  from assms obtain g where g: "re_search attr_re content = Some g"
    using attr_re_search [of content] by auto
  then show ?thesis
    using attr_region_of [of content, symmetric]
    by (simp add: parse_content_attributes parse_attributes_def)
qed

lemma found_code:
  assumes "anchor_pair ''/MN'' [''/POS'', ''/END''] content"
  shows "\<exists>region. region_of ''/MN'' [''/POS'', ''/END''] content = Some region \<and>
           parse_code (new_program fname) content =
           parse_code_lines 0 (split_on (CHR 0x0A) region) (new_program fname) \<and>
           code_lines (parse_content fname content) =
           filter (\<lambda>l. \<not> skipped l) (map strip (split_on (CHR 0x0A) region))"
proof -
  from assms obtain g where g: "re_search mn_re content = Some g"
    using mn_re_search [of content] by auto
  then show ?thesis
    using mn_region_of [of content, symmetric]
    by (simp add: parse_content_code_fields parse_code_def code_lines_loop new_program_def)
qed

lemma found_positions:
  assumes "anchor_pair ''/POS'' [''/END''] content"
  shows "\<exists>region. region_of ''/POS'' [''/END''] content = Some region \<and>
           positions (parse_content fname content) = map operand (re_finditer position_re region)"
proof -
  from assms obtain g where g: "re_search pos_re content = Some g"
    using pos_re_search [of content] by auto
  then show ?thesis
    using pos_region_of [of content, symmetric]
    by (simp add: parse_content_positions parse_positions_def new_program_def)
qed

text \<open>
  Claim C8, as amended. The parse of a file that can be read returns a program, never an
  error. A region whose own pair of anchors is not in the text is empty: no attributes, or
  no code lines and nothing that is taken from code lines, or no positions. A region whose
  own pair of anchors is in the text is the text between the first opening anchor and the
  nearest closing anchor after it, and it is read from that text, whatever the other pairs
  are: the attributes are those that the patterns give on the attribute
  text, the code lines are the lines of the main code that are not skipped, and labels,
  jumps and calls are those of these lines; the positions are the matches in the position
  text. But the pairs share anchors: the attribute region ends at the anchor of the
  application data or at the one that opens the main code, so a text with neither has no
  attributes, also when the attribute anchor and attribute lines are there.
\<close>

theorem sections_found_by_their_own_anchors:
  "(fs filepath = Some bytes \<longrightarrow> (\<exists>program. parse_file self fs filepath = Inr program)) \<and>
   (\<not> anchor_pair ''/ATTR'' [''/APPL'', ''/MN''] content \<longrightarrow>
      attributes (parse_content fname content) = Map.empty) \<and>
   (\<not> anchor_pair ''/MN'' [''/POS'', ''/END''] content \<longrightarrow>
      code_lines (parse_content fname content) = [] \<and>
      labels (parse_content fname content) = [] \<and>
      errors (parse_content fname content) = [] \<and>
      jumps (parse_content fname content) = [] \<and>
      calls (parse_content fname content) = [] \<and>
      registers_used (parse_content fname content) = [] \<and>
      digital_inputs (parse_content fname content) = [] \<and>
      digital_outputs (parse_content fname content) = [] \<and>
      register_inputs (parse_content fname content) = [] \<and>
      register_outputs (parse_content fname content) = [] \<and>
      position_registers (parse_content fname content) = []) \<and>
   (\<not> anchor_pair ''/POS'' [''/END''] content \<longrightarrow> positions (parse_content fname content) = []) \<and>
   (anchor_pair ''/ATTR'' [''/APPL'', ''/MN''] content \<longrightarrow>
      (\<exists>region. region_of ''/ATTR'' [''/APPL'', ''/MN''] content = Some region \<and>
         attributes (parse_content fname content) =
         attributes (foldl (parse_attribute region) (new_program fname) patterns))) \<and>
   (anchor_pair ''/MN'' [''/POS'', ''/END''] content \<longrightarrow>
      (\<exists>region. region_of ''/MN'' [''/POS'', ''/END''] content = Some region \<and>
         code_lines (parse_content fname content) =
           filter (\<lambda>l. \<not> skipped l) (map strip (split_on (CHR 0x0A) region)) \<and>
         labels (parse_content fname content) =
           labels (parse_code_lines 0 (split_on (CHR 0x0A) region) (new_program fname)) \<and>
         jumps (parse_content fname content) =
           jumps (parse_code_lines 0 (split_on (CHR 0x0A) region) (new_program fname)) \<and>
         calls (parse_content fname content) =
           calls (parse_code_lines 0 (split_on (CHR 0x0A) region) (new_program fname)))) \<and>
   (anchor_pair ''/POS'' [''/END''] content \<longrightarrow>
      (\<exists>region. region_of ''/POS'' [''/END''] content = Some region \<and>
         positions (parse_content fname content) = map operand (re_finditer position_re region))) \<and>
   (\<not> contains ''/APPL'' content \<and> \<not> contains ''/MN'' content \<longrightarrow>
      attributes (parse_content fname content) = Map.empty)"
proof -
  have a: "fs filepath = Some bytes \<longrightarrow> (\<exists>program. parse_file self fs filepath = Inr program)"
    by (simp add: parse_file_def read_text_def)
  have b: "\<not> anchor_pair ''/ATTR'' [''/APPL'', ''/MN''] content \<longrightarrow>
      attributes (parse_content fname content) = Map.empty"
    by (simp add: no_attributes)
  have c: "\<not> anchor_pair ''/MN'' [''/POS'', ''/END''] content \<longrightarrow>
      code_lines (parse_content fname content) = [] \<and>
      labels (parse_content fname content) = [] \<and>
      errors (parse_content fname content) = [] \<and>
      jumps (parse_content fname content) = [] \<and>
      calls (parse_content fname content) = [] \<and>
      registers_used (parse_content fname content) = [] \<and>
      digital_inputs (parse_content fname content) = [] \<and>
      digital_outputs (parse_content fname content) = [] \<and>
      register_inputs (parse_content fname content) = [] \<and>
      register_outputs (parse_content fname content) = [] \<and>
      position_registers (parse_content fname content) = []"
    by (simp add: no_code)
  have d: "\<not> anchor_pair ''/POS'' [''/END''] content \<longrightarrow> positions (parse_content fname content) = []"
    by (simp add: no_positions)
  have e: "anchor_pair ''/ATTR'' [''/APPL'', ''/MN''] content \<longrightarrow>
      (\<exists>region. region_of ''/ATTR'' [''/APPL'', ''/MN''] content = Some region \<and>
         attributes (parse_content fname content) =
         attributes (foldl (parse_attribute region) (new_program fname) patterns))"
    using found_attributes by blast
  have f: "anchor_pair ''/MN'' [''/POS'', ''/END''] content \<longrightarrow>
      (\<exists>region. region_of ''/MN'' [''/POS'', ''/END''] content = Some region \<and>
         code_lines (parse_content fname content) =
           filter (\<lambda>l. \<not> skipped l) (map strip (split_on (CHR 0x0A) region)) \<and>
         labels (parse_content fname content) =
           labels (parse_code_lines 0 (split_on (CHR 0x0A) region) (new_program fname)) \<and>
         jumps (parse_content fname content) =
           jumps (parse_code_lines 0 (split_on (CHR 0x0A) region) (new_program fname)) \<and>
         calls (parse_content fname content) =
           calls (parse_code_lines 0 (split_on (CHR 0x0A) region) (new_program fname)))"
  proof
    assume "anchor_pair ''/MN'' [''/POS'', ''/END''] content"
    from found_code [OF this, of fname]
    obtain region where l: "region_of ''/MN'' [''/POS'', ''/END''] content = Some region"
      "parse_code (new_program fname) content =
       parse_code_lines 0 (split_on (CHR 0x0A) region) (new_program fname)"
      "code_lines (parse_content fname content) =
       filter (\<lambda>l. \<not> skipped l) (map strip (split_on (CHR 0x0A) region))"
      by blast
    have "labels (parse_content fname content) =
            labels (parse_code_lines 0 (split_on (CHR 0x0A) region) (new_program fname))"
      "jumps (parse_content fname content) =
            jumps (parse_code_lines 0 (split_on (CHR 0x0A) region) (new_program fname))"
      "calls (parse_content fname content) =
            calls (parse_code_lines 0 (split_on (CHR 0x0A) region) (new_program fname))"
      by (simp_all only: parse_content_code_fields l(2))
    with l(1,3) show "\<exists>region. region_of ''/MN'' [''/POS'', ''/END''] content = Some region \<and>
         code_lines (parse_content fname content) =
           filter (\<lambda>l. \<not> skipped l) (map strip (split_on (CHR 0x0A) region)) \<and>
         labels (parse_content fname content) =
           labels (parse_code_lines 0 (split_on (CHR 0x0A) region) (new_program fname)) \<and>
         jumps (parse_content fname content) =
           jumps (parse_code_lines 0 (split_on (CHR 0x0A) region) (new_program fname)) \<and>
         calls (parse_content fname content) =
           calls (parse_code_lines 0 (split_on (CHR 0x0A) region) (new_program fname))"
      by blast
  qed
  have g: "anchor_pair ''/POS'' [''/END''] content \<longrightarrow>
      (\<exists>region. region_of ''/POS'' [''/END''] content = Some region \<and>
         positions (parse_content fname content) = map operand (re_finditer position_re region))"
    using found_positions by blast
  have h: "\<not> contains ''/APPL'' content \<and> \<not> contains ''/MN'' content \<longrightarrow>
      attributes (parse_content fname content) = Map.empty"
    using no_closing_no_attributes by blast
  from a b c d e f g h show ?thesis by (intro conjI)
qed

theorem sections_found_by_their_own_anchors_witness:
  "\<not> anchor_pair ''/MN'' [''/POS'', ''/END'']
      (unlines [''/PROG A'', ''/ATTR'', ''OWNER = MNEDITOR;'', ''/APPL'', ''/POS'', ''P[1]{'', ''/END'']) \<and>
   code_lines (parse_content ''a.LS''
      (unlines [''/PROG A'', ''/ATTR'', ''OWNER = MNEDITOR;'', ''/APPL'', ''/POS'', ''P[1]{'', ''/END''])) = [] \<and>
   anchor_pair ''/ATTR'' [''/APPL'', ''/MN'']
      (unlines [''/PROG A'', ''/ATTR'', ''OWNER = MNEDITOR;'', ''/APPL'', ''/POS'', ''P[1]{'', ''/END'']) \<and>
   attributes (parse_content ''a.LS''
      (unlines [''/PROG A'', ''/ATTR'', ''OWNER = MNEDITOR;'', ''/APPL'', ''/POS'', ''P[1]{'', ''/END'']))
      ''OWNER'' = Some ''MNEDITOR'' \<and>
   anchor_pair ''/POS'' [''/END'']
      (unlines [''/PROG A'', ''/ATTR'', ''OWNER = MNEDITOR;'', ''/APPL'', ''/POS'', ''P[1]{'', ''/END'']) \<and>
   positions (parse_content ''a.LS''
      (unlines [''/PROG A'', ''/ATTR'', ''OWNER = MNEDITOR;'', ''/APPL'', ''/POS'', ''P[1]{'', ''/END''])) =
      [(1, [])] \<and>
   \<not> anchor_pair ''/ATTR'' [''/APPL'', ''/MN''] (unlines [''/PROG A'', ''/MN'', ''LBL[1]'', ''/END'']) \<and>
   attributes (parse_content ''a.LS'' (unlines [''/PROG A'', ''/MN'', ''LBL[1]'', ''/END''])) ''OWNER'' = None \<and>
   anchor_pair ''/MN'' [''/POS'', ''/END''] (unlines [''/PROG A'', ''/MN'', ''LBL[1]'', ''/END'']) \<and>
   code_lines (parse_content ''a.LS'' (unlines [''/PROG A'', ''/MN'', ''LBL[1]'', ''/END''])) = [''LBL[1]''] \<and>
   (\<exists>program. parse_file \<lparr> programs = [] \<rparr> [''a.LS'' \<mapsto> ''no anchors''] ''a.LS'' = Inr program)"
proof -
  let ?c = "unlines [''/PROG A'', ''/ATTR'', ''OWNER = MNEDITOR;'', ''/APPL'', ''/POS'', ''P[1]{'', ''/END'']"
  let ?d = "unlines [''/PROG A'', ''/MN'', ''LBL[1]'', ''/END'']"
  let ?fs = "[''a.LS'' \<mapsto> ''no anchors'']"
  have c1: "\<not> anchor_pair ''/MN'' [''/POS'', ''/END''] ?c"
    by code_simp
  have c2: "anchor_pair ''/ATTR'' [''/APPL'', ''/MN''] ?c"
    by code_simp
  have c3: "anchor_pair ''/POS'' [''/END''] ?c"
    by code_simp
  have c4: "region_of ''/ATTR'' [''/APPL'', ''/MN''] ?c = Some (nl @ ''OWNER = MNEDITOR;'' @ nl)"
    by code_simp
  have c5: "attributes (foldl (parse_attribute (nl @ ''OWNER = MNEDITOR;'' @ nl)) (new_program ''a.LS'') patterns)
              ''OWNER'' = Some ''MNEDITOR''"
    by code_simp
  have c6: "region_of ''/POS'' [''/END''] ?c = Some (nl @ ''P[1]{'' @ nl)"
    by code_simp
  have c7: "map operand (re_finditer position_re (nl @ ''P[1]{'' @ nl)) = [(1, [])]"
    by code_simp
  have d1: "\<not> anchor_pair ''/ATTR'' [''/APPL'', ''/MN''] ?d"
    by code_simp
  have d2: "anchor_pair ''/MN'' [''/POS'', ''/END''] ?d"
    by code_simp
  have d3: "region_of ''/MN'' [''/POS'', ''/END''] ?d = Some (nl @ ''LBL[1]'' @ nl)"
    by code_simp
  have d4: "filter (\<lambda>l. \<not> skipped l) (map strip (split_on (CHR 0x0A) (nl @ ''LBL[1]'' @ nl))) = [''LBL[1]'']"
    by code_simp
  note t1 = sections_found_by_their_own_anchors [of ?fs "''a.LS''" "''no anchors''" "\<lparr> programs = [] \<rparr>" ?c "''a.LS''"]
  note t2 = sections_found_by_their_own_anchors [of ?fs "''a.LS''" "''no anchors''" "\<lparr> programs = [] \<rparr>" ?d "''a.LS''"]
  have "code_lines (parse_content ''a.LS'' ?c) = []"
    using t1 c1 by blast
  moreover have "attributes (parse_content ''a.LS'' ?c) ''OWNER'' = Some ''MNEDITOR''"
    using t1 c2 c4 c5 by auto
  moreover have "positions (parse_content ''a.LS'' ?c) = [(1, [])]"
    using t1 c3 c6 c7 by auto
  moreover have "attributes (parse_content ''a.LS'' ?d) ''OWNER'' = None"
    using t2 d1 by auto
  moreover have "code_lines (parse_content ''a.LS'' ?d) = [''LBL[1]'']"
    using t2 d2 d3 d4 by auto
  moreover have "\<exists>program. parse_file \<lparr> programs = [] \<rparr> ?fs ''a.LS'' = Inr program"
    using t1 by simp
  ultimately show ?thesis
    using c1 c2 c3 d1 d2 by (intro conjI)
qed

text \<open>
  Against claim C8 as it was stated (the regions are found apart from the missing one): the
  two texts of the next theorem have the same attribute lines. In the first the main code
  follows and the owner is read. The second has no main code, so nothing closes the
  attribute region, and the owner is not read.
\<close>

theorem attributes_lost_without_main_code:
  "attributes (parse_content ''a.LS''
      (unlines [''/PROG A'', ''/ATTR'', ''OWNER = MNEDITOR;'', ''/MN'', ''LBL[1]'', ''/POS'', ''/END'']))
      ''OWNER'' = Some ''MNEDITOR'' \<and>
   \<not> anchor_pair ''/MN'' [''/POS'', ''/END'']
      (unlines [''/PROG A'', ''/ATTR'', ''OWNER = MNEDITOR;'', ''/POS'', ''/END'']) \<and>
   contains (unlines [''/ATTR'', ''OWNER = MNEDITOR;''])
      (unlines [''/PROG A'', ''/ATTR'', ''OWNER = MNEDITOR;'', ''/POS'', ''/END'']) \<and>
   attributes (parse_content ''a.LS''
      (unlines [''/PROG A'', ''/ATTR'', ''OWNER = MNEDITOR;'', ''/POS'', ''/END'']))
      ''OWNER'' = None"
proof -
  have "attributes (parse_content ''a.LS''
      (unlines [''/PROG A'', ''/ATTR'', ''OWNER = MNEDITOR;'', ''/MN'', ''LBL[1]'', ''/POS'', ''/END'']))
      ''OWNER'' = Some ''MNEDITOR''"
    by code_simp
  moreover have "\<not> anchor_pair ''/MN'' [''/POS'', ''/END'']
      (unlines [''/PROG A'', ''/ATTR'', ''OWNER = MNEDITOR;'', ''/POS'', ''/END''])"
    by code_simp
  moreover have "contains (unlines [''/ATTR'', ''OWNER = MNEDITOR;''])
      (unlines [''/PROG A'', ''/ATTR'', ''OWNER = MNEDITOR;'', ''/POS'', ''/END''])"
    by code_simp
  moreover have "attributes (parse_content ''a.LS''
      (unlines [''/PROG A'', ''/ATTR'', ''OWNER = MNEDITOR;'', ''/POS'', ''/END'']))
      ''OWNER'' = None"
    by code_simp
  ultimately show ?thesis by (intro conjI)
qed


section \<open>The call tree\<close>

lemma card_unvisited_insert:
  assumes "finite (dom g)" and "p \<in> dom g" and "p \<notin> V" and "card (dom g - V) < Suc fuel"
  shows "card (dom g - insert p V) < fuel"
proof -
  have "p \<in> dom g - V" using assms by simp
  moreover have "finite (dom g - V)" using assms by simp
  moreover have "dom g - insert p V = (dom g - V) - {p}" by auto
  ultimately have "card (dom g - insert p V) = card (dom g - V) - 1"
    by simp
  moreover have "0 < card (dom g - V)"
    using \<open>p \<in> dom g - V\<close> \<open>finite (dom g - V)\<close> card_gt_0_iff by blast
  ultimately show ?thesis using assms(4) by linarith
qed

lemma card_unvisited_mono:
  assumes "finite (dom g)" and "V \<subseteq> V'" and "card (dom g - V) < fuel"
  shows "card (dom g - V') < fuel"
proof -
  have "card (dom g - V') \<le> card (dom g - V)"
    using assms by (intro card_mono) auto
  then show ?thesis using assms(3) by linarith
qed

lemma call_tree_total:
  assumes fin: "finite (dom g)"
  shows "card (dom g - visited s) < fuel \<Longrightarrow>
         \<exists>s' new. write_call_tree fuel g p indent s = Some s' \<and>
           expanded s' = expanded s @ new \<and> visited s' = visited s \<union> set new \<and>
           distinct new \<and> set new \<inter> visited s = {} \<and> p \<in> visited s' \<and>
           length (out s') = length (out s) + sum_list (map (fanout g) new)"
proof (induction fuel arbitrary: p indent s)
  case 0
  then show ?case by simp
next
  case (Suc fuel)
  have callees: "card (dom g - visited t) < fuel \<Longrightarrow>
         \<exists>t' new. write_callees fuel g cs ind t = Some t' \<and>
           expanded t' = expanded t @ new \<and> visited t' = visited t \<union> set new \<and>
           distinct new \<and> set new \<inter> visited t = {} \<and>
           length (out t') = length (out t) + length cs + sum_list (map (fanout g) new)"
    for cs ind t
  proof (induction cs arbitrary: t)
    case Nil
    show ?case by simp
  next
    case (Cons c cs)
    let ?t0 = "t\<lparr> out := out t @ [(ind, c)] \<rparr>"
    have "card (dom g - visited ?t0) < fuel" using Cons.prems by simp
    from Suc.IH [OF this, of c "Suc ind"]
    obtain t1 new1 where t1: "write_call_tree fuel g c (Suc ind) ?t0 = Some t1"
      "expanded t1 = expanded t @ new1" "visited t1 = visited t \<union> set new1"
      "distinct new1" "set new1 \<inter> visited t = {}"
      "length (out t1) = Suc (length (out t)) + sum_list (map (fanout g) new1)"
      by auto
    have "card (dom g - visited t1) < fuel"
      using card_unvisited_mono [OF fin _ Cons.prems] t1(3) by simp
    from Cons.IH [OF this]
    obtain t2 new2 where t2: "write_callees fuel g cs ind t1 = Some t2"
      "expanded t2 = expanded t1 @ new2" "visited t2 = visited t1 \<union> set new2"
      "distinct new2" "set new2 \<inter> visited t1 = {}"
      "length (out t2) = length (out t1) + length cs + sum_list (map (fanout g) new2)"
      by auto
    show ?case
    proof (intro exI [of _ t2] exI [of _ "new1 @ new2"] conjI)
      show "write_callees fuel g (c # cs) ind t = Some t2" using t1(1) t2(1) by simp
      show "expanded t2 = expanded t @ new1 @ new2" using t1(2) t2(2) by simp
      show "visited t2 = visited t \<union> set (new1 @ new2)" using t1(3) t2(3) by auto
      show "distinct (new1 @ new2)" using t1(3,4) t2(4,5) by auto
      show "set (new1 @ new2) \<inter> visited t = {}" using t1(3,5) t2(5) by auto
      show "length (out t2) = length (out t) + length (c # cs) + sum_list (map (fanout g) (new1 @ new2))"
        using t1(6) t2(6) by simp
    qed
  qed
  show ?case
  proof (cases "p \<in> visited s")
    case True
    then show ?thesis by (intro exI [of _ s] exI [of _ "[]"]) simp
  next
    case False
    let ?s1 = "s\<lparr> visited := insert p (visited s), expanded := expanded s @ [p] \<rparr>"
    show ?thesis
    proof (cases "g p")
      case None
      with False show ?thesis
        by (intro exI [of _ ?s1] exI [of _ "[p]"]) (simp add: fanout_def)
    next
      case (Some cs)
      then have "p \<in> dom g" by auto
      from card_unvisited_insert [OF fin this False Suc.prems]
      have "card (dom g - visited ?s1) < fuel" by simp
      from callees [OF this, of "sort (remdups cs)" indent]
      obtain t' new where t': "write_callees fuel g (sort (remdups cs)) indent ?s1 = Some t'"
        "expanded t' = expanded ?s1 @ new" "visited t' = visited ?s1 \<union> set new"
        "distinct new" "set new \<inter> visited ?s1 = {}"
        "length (out t') = length (out ?s1) + length (sort (remdups cs)) + sum_list (map (fanout g) new)"
        by auto
      show ?thesis
      proof (intro exI [of _ t'] exI [of _ "p # new"] conjI)
        show "write_call_tree (Suc fuel) g p indent s = Some t'"
          using False Some t'(1) by simp
        show "expanded t' = expanded s @ p # new" using t'(2) by simp
        show "visited t' = visited s \<union> set (p # new)" using t'(3) by auto
        show "distinct (p # new)" using t'(4,5) by auto
        show "set (p # new) \<inter> visited s = {}" using t'(5) False by auto
        show "p \<in> visited t'" using t'(3) by simp
        show "length (out t') = length (out s) + sum_list (map (fanout g) (p # new))"
          using t'(6) Some by (simp add: fanout_def)
      qed
    qed
  qed
qed

text \<open>
  Claim C3. On a call graph with finitely many callers, with cycles and self-calls or not,
  the traversal from any root returns as soon as the depth it may use is more than the
  number of callers; every name is expanded at most once (the log of the expansions has no
  repetition, and it holds exactly the visited names); and the lines written are, for each
  expanded name once, one line for each of its distinct callees: a name that is reached
  again gets its line from its caller and nothing more.
\<close>

theorem call_tree_terminates:
  assumes "finite (dom g)" and "card (dom g) < fuel"
  shows "\<exists>s'. write_call_tree fuel g root indent start_state = Some s' \<and>
           distinct (expanded s') \<and> set (expanded s') = visited s' \<and> root \<in> visited s' \<and>
           length (out s') = sum_list (map (fanout g) (expanded s'))"
proof -
  have "card (dom g - visited start_state) < fuel"
    using assms(2) by (simp add: start_state_def)
  from call_tree_total [OF assms(1) this, of root indent]
  show ?thesis by (auto simp: start_state_def)
qed

theorem call_tree_terminates_witness:
  "map_option expanded (write_call_tree 3 [''A'' \<mapsto> [''B''], ''B'' \<mapsto> [''A'']] ''A'' 1 start_state) = Some [''A'', ''B''] \<and>
   map_option out (write_call_tree 3 [''A'' \<mapsto> [''B''], ''B'' \<mapsto> [''A'']] ''A'' 1 start_state) = Some [(1, ''B''), (2, ''A'')] \<and>
   (\<exists>s'. write_call_tree 3 [''A'' \<mapsto> [''B''], ''B'' \<mapsto> [''A'']] ''B'' 1 start_state = Some s' \<and>
           distinct (expanded s') \<and> set (expanded s') = visited s' \<and> ''B'' \<in> visited s' \<and>
           length (out s') = sum_list (map (fanout [''A'' \<mapsto> [''B''], ''B'' \<mapsto> [''A'']]) (expanded s'))) \<and>
   (\<exists>s'. write_call_tree 2 [''A'' \<mapsto> [''A'']] ''A'' 1 start_state = Some s' \<and>
           distinct (expanded s') \<and> set (expanded s') = visited s' \<and> ''A'' \<in> visited s' \<and>
           length (out s') = sum_list (map (fanout [''A'' \<mapsto> [''A'']]) (expanded s')))"
proof -
  have a: "map_option expanded (write_call_tree 3 [''A'' \<mapsto> [''B''], ''B'' \<mapsto> [''A'']] ''A'' 1 start_state) = Some [''A'', ''B'']"
    by code_simp
  have b: "map_option out (write_call_tree 3 [''A'' \<mapsto> [''B''], ''B'' \<mapsto> [''A'']] ''A'' 1 start_state) = Some [(1, ''B''), (2, ''A'')]"
    by code_simp
  have c: "finite (dom [''A'' \<mapsto> [''B''], ''B'' \<mapsto> [''A'']])" "card (dom [''A'' \<mapsto> [''B''], ''B'' \<mapsto> [''A'']]) < 3"
    "finite (dom [''A'' \<mapsto> [''A'']])" "card (dom [''A'' \<mapsto> [''A'']]) < 2"
    by simp_all
  show ?thesis
    using a b call_tree_terminates [OF c(1,2), of "''B''" 1] call_tree_terminates [OF c(3,4), of "''A''" 1]
    by simp
qed



section \<open>The table of registers\<close>

lemma merged_empty [simp]: "merged old {} = old"
  by (simp add: merged_def)

lemma merged_merged: "merged (merged old a) b = merged old (a \<union> b)"
  by (auto simp: merged_def split: option.splits)

lemma add_registers_at:
  "add_registers table used n = merged (table n) (aliases_in used n)"
proof (induction used arbitrary: table)
  case Nil
  show ?case by (simp add: add_registers_def aliases_in_def)
next
  case (Cons r used)
  have step: "add_registers table (r # used) =
              add_registers (if snd r \<noteq> [] then table_add table (fst r) (snd r) else table) used"
    by (simp add: add_registers_def)
  have "(if snd r \<noteq> [] then table_add table (fst r) (snd r) else table) n =
        merged (table n) (aliases_in [r] n)"
    by (auto simp: table_add_def merged_def aliases_in_def split: option.splits)
  moreover have "aliases_in [r] n \<union> aliases_in used n = aliases_in (r # used) n"
    by (auto simp: aliases_in_def)
  ultimately show ?case
    by (simp only: step Cons.IH merged_merged)
qed

lemma register_map_foldl:
  "register_map (foldl (\<lambda>self np. self\<lparr> register_map := add_registers (register_map self) (registers_used (snd np)) \<rparr>) self progs) n =
   merged (register_map self n) (observed_aliases progs n)"
proof (induction progs arbitrary: self)
  case Nil
  show ?case by (simp add: observed_aliases_def)
next
  case (Cons np progs)
  have "observed_aliases (np # progs) n = aliases_in (registers_used (snd np)) n \<union> observed_aliases progs n"
    by (simp add: observed_aliases_def)
  moreover have "register_map (self\<lparr> register_map := add_registers (register_map self) (registers_used (snd np)) \<rparr>) n =
     merged (register_map self n) (aliases_in (registers_used (snd np)) n)"
    by (simp add: add_registers_at)
  ultimately show ?case
    by (simp only: foldl_Cons Cons.IH merged_merged)
qed

lemma register_map_build:
  "register_map (build_register_map self) n =
   merged (register_map self n) (observed_aliases (programs (parser self)) n)"
  by (simp add: build_register_map_def register_map_foldl)

lemma add_io_fields [simp]:
  "register_map (add_io k u self) = register_map self"
  "parser (add_io k u self) = parser self"
  "call_graph (add_io k u self) = call_graph self"
  by (simp_all add: add_io_def)

lemma build_io_map_fields:
  "register_map (foldl (\<lambda>self np.
        add_io ''RO'' (register_outputs (snd np))
          (add_io ''RI'' (register_inputs (snd np))
            (add_io ''DO'' (digital_outputs (snd np))
              (add_io ''DI'' (digital_inputs (snd np)) self)))) self progs) = register_map self"
  "parser (foldl (\<lambda>self np.
        add_io ''RO'' (register_outputs (snd np))
          (add_io ''RI'' (register_inputs (snd np))
            (add_io ''DO'' (digital_outputs (snd np))
              (add_io ''DI'' (digital_inputs (snd np)) self)))) self progs) = parser self"
  by (induction progs arbitrary: self) simp_all

lemma build_io_map_keeps [simp]:
  "register_map (build_io_map self) = register_map self"
  "parser (build_io_map self) = parser self"
  by (simp_all add: build_io_map_def build_io_map_fields)

lemma build_register_map_keeps_foldl:
  "parser (foldl (\<lambda>self np. self\<lparr> register_map := add_registers (register_map self) (registers_used (snd np)) \<rparr>) self progs) = parser self"
  by (induction progs arbitrary: self) simp_all

lemma build_register_map_keeps [simp]: "parser (build_register_map self) = parser self"
  by (simp add: build_register_map_def build_register_map_keeps_foldl)

lemma build_call_graph_keeps_inner:
  "register_map (foldl (\<lambda>self c. self\<lparr> call_graph := list_append (call_graph self) k (fst c) \<rparr>) self cs) = register_map self"
  "parser (foldl (\<lambda>self c. self\<lparr> call_graph := list_append (call_graph self) k (fst c) \<rparr>) self cs) = parser self"
  by (induction cs arbitrary: self) simp_all

lemma build_call_graph_keeps_foldl:
  "register_map (foldl (\<lambda>self np.
        foldl (\<lambda>self c. self\<lparr> call_graph := list_append (call_graph self) (fst np) (fst c) \<rparr>)
          self (calls (snd np))) self progs) = register_map self"
  "parser (foldl (\<lambda>self np.
        foldl (\<lambda>self c. self\<lparr> call_graph := list_append (call_graph self) (fst np) (fst c) \<rparr>)
          self (calls (snd np))) self progs) = parser self"
  by (induction progs arbitrary: self) (simp_all add: build_call_graph_keeps_inner)

lemma build_call_graph_keeps [simp]:
  "register_map (build_call_graph self) = register_map self"
  "parser (build_call_graph self) = parser self"
  by (simp_all add: build_call_graph_def build_call_graph_keeps_foldl)

lemma analyze_file_register_map [simp]: "register_map (analyze_file fs self path) = register_map self"
  by (simp add: analyze_file_def split: sum.splits)

lemma analyze_files_register_map [simp]:
  "register_map (foldl (analyze_file fs) self paths) = register_map self"
  by (induction paths arbitrary: self) simp_all

text \<open>
  Claim C6. After the analysis of a list of files by a fresh analyzer, the table of registers
  gives for every number the set of all the aliases that the programs of the collection
  observed for it, and no entry when there is none: all the aliases are kept, none is chosen
  over another. In the witness one file has \<open>R[12:SpeedRef]\<close>, the other \<open>R[12:SpeedAlt]\<close>, and
  the entry for 12 holds both.
\<close>

theorem aliases_are_all_kept:
  "register_map (analyze_all (new_analyzer prs) fs paths) n =
     (if observed_aliases (programs (parser (analyze_all (new_analyzer prs) fs paths))) n = {} then None
      else Some (observed_aliases (programs (parser (analyze_all (new_analyzer prs) fs paths))) n))"
  by (simp add: analyze_all_def register_map_build merged_def new_analyzer_def)

theorem aliases_are_all_kept_witness:
  "register_map
     (analyze_all (new_analyzer \<lparr> programs = [] \<rparr>)
        [''a.LS'' \<mapsto> unlines [''/PROG A'', ''/MN'', ''R[12:SpeedRef]=50'', ''/END''],
         ''b.LS'' \<mapsto> unlines [''/PROG B'', ''/MN'', ''R[12:SpeedAlt]=60'', ''/END'']]
        [''a.LS'', ''b.LS'']) 12 =
   Some {''SpeedRef'', ''SpeedAlt''}"
proof -
  let ?fs = "[''a.LS'' \<mapsto> unlines [''/PROG A'', ''/MN'', ''R[12:SpeedRef]=50'', ''/END''],
              ''b.LS'' \<mapsto> unlines [''/PROG B'', ''/MN'', ''R[12:SpeedAlt]=60'', ''/END'']]"
  have "observed_aliases (programs (parser (analyze_all (new_analyzer \<lparr> programs = [] \<rparr>) ?fs
          [''a.LS'', ''b.LS'']))) 12 = {''SpeedRef'', ''SpeedAlt''}"
    by code_simp
  then show ?thesis
    using aliases_are_all_kept [of "\<lparr> programs = [] \<rparr>" ?fs "[''a.LS'', ''b.LS'']" 12]
    by simp
qed



section \<open>Jump lines and label definitions\<close>

text \<open>
  The pattern for a label definition is searched anywhere in the line, and the text of a jump
  \<^verbatim>\<open>JMP LBL[30]\<close> contains \<^verbatim>\<open>LBL[30]\<close>. For claim C1: in the file of the next theorem the main
  code defines the label 10 only and jumps to 30; the parse records both 10 and 30 as labels
  (and 30 as a jump as well).
\<close>

theorem jump_target_recorded_as_label:
  "labels (parse_content ''a.LS'' (unlines [''/MN'', ''LBL[10]'', ''JMP LBL[30]'', ''/END''])) =
     [(10, [], 1), (30, [], 2)] \<and>
   jumps (parse_content ''a.LS'' (unlines [''/MN'', ''LBL[10]'', ''JMP LBL[30]'', ''/END''])) = [(30, 2)]"
proof -
  have "labels (parse_content ''a.LS'' (unlines [''/MN'', ''LBL[10]'', ''JMP LBL[30]'', ''/END''])) =
     [(10, [], 1), (30, [], 2)]"
    by code_simp
  moreover have "jumps (parse_content ''a.LS'' (unlines [''/MN'', ''LBL[10]'', ''JMP LBL[30]'', ''/END''])) = [(30, 2)]"
    by code_simp
  ultimately show ?thesis by simp
qed

text \<open>
  For claim C2: on the five lines of the scenario the flow analyzer takes the jump line for a
  definition of the label 20. Three nodes are created; the block of 10 has the call as its
  only instruction and no successor; the dictionary has the keys 10 and 20, and 20 leads to
  the node of the last line \<^verbatim>\<open>LBL[20]\<close>, which holds the end marker and has no successor. The
  parse of the other analyzer records the one call.
\<close>

theorem jump_line_opens_block:
  "store (parse_program_content new_flow_analyzer
      (unlines [''/MN'', ''LBL[10]'', ''CALL SUB1'', ''JMP LBL[20]'', ''LBL[20]'', ''END'', ''/POS'', ''/END''])) =
     [\<lparr> label_num = 10, label_name = [], instructions = [''CALL SUB1''], successors = [], conditions = [] \<rparr>,
      \<lparr> label_num = 20, label_name = [], instructions = [], successors = [], conditions = [] \<rparr>,
      \<lparr> label_num = 20, label_name = [], instructions = [''END''], successors = [], conditions = [] \<rparr>] \<and>
   map (flow_nodes (parse_program_content new_flow_analyzer
      (unlines [''/MN'', ''LBL[10]'', ''CALL SUB1'', ''JMP LBL[20]'', ''LBL[20]'', ''END'', ''/POS'', ''/END''])))
     [10, 20] = [Some 0, Some 2] \<and>
   map_option successors (node_of (parse_program_content new_flow_analyzer
      (unlines [''/MN'', ''LBL[10]'', ''CALL SUB1'', ''JMP LBL[20]'', ''LBL[20]'', ''END'', ''/POS'', ''/END''])) 10) =
     Some [] \<and>
   calls (parse_content ''a.LS''
      (unlines [''/MN'', ''LBL[10]'', ''CALL SUB1'', ''JMP LBL[20]'', ''LBL[20]'', ''END'', ''/POS'', ''/END''])) =
     [(''SUB1'', 2)]"
proof -
  let ?c = "unlines [''/MN'', ''LBL[10]'', ''CALL SUB1'', ''JMP LBL[20]'', ''LBL[20]'', ''END'', ''/POS'', ''/END'']"
  have "store (parse_program_content new_flow_analyzer ?c) =
     [\<lparr> label_num = 10, label_name = [], instructions = [''CALL SUB1''], successors = [], conditions = [] \<rparr>,
      \<lparr> label_num = 20, label_name = [], instructions = [], successors = [], conditions = [] \<rparr>,
      \<lparr> label_num = 20, label_name = [], instructions = [''END''], successors = [], conditions = [] \<rparr>]"
    by code_simp
  moreover have "map (flow_nodes (parse_program_content new_flow_analyzer ?c)) [10, 20] = [Some 0, Some 2]"
    by code_simp
  moreover have "map_option successors (node_of (parse_program_content new_flow_analyzer ?c) 10) = Some []"
    by code_simp
  moreover have "calls (parse_content ''a.LS'' ?c) = [(''SUB1'', 2)]"
    by code_simp
  ultimately show ?thesis by simp
qed

text \<open>
  For claim C7: the label 5 is defined twice and the last line jumps to it. The flow
  analyzer takes the jump line for a third definition: it creates a node without name and
  without instructions and puts it in the dictionary, so the dictionary does not give the
  block that the last definition \<^verbatim>\<open>LBL[5:second]\<close> opened.
\<close>

theorem jump_line_replaces_last_definition:
  "map (\<lambda>nd. (label_num nd, label_name nd, instructions nd))
     (store (parse_program_content new_flow_analyzer
        (unlines [''/MN'', ''LBL[5:first]'', ''R[1]=1'', ''LBL[5:second]'', ''R[2]=2'', ''JMP LBL[5]'', ''/END'']))) =
     [(5, ''first'', [''R[1]=1'']), (5, ''second'', [''R[2]=2'']), (5, [], [])] \<and>
   flow_nodes (parse_program_content new_flow_analyzer
        (unlines [''/MN'', ''LBL[5:first]'', ''R[1]=1'', ''LBL[5:second]'', ''R[2]=2'', ''JMP LBL[5]'', ''/END''])) 5 =
     Some 2 \<and>
   node_of (parse_program_content new_flow_analyzer
        (unlines [''/MN'', ''LBL[5:first]'', ''R[1]=1'', ''LBL[5:second]'', ''R[2]=2'', ''JMP LBL[5]'', ''/END''])) 5 =
     Some \<lparr> label_num = 5, label_name = [], instructions = [], successors = [], conditions = [] \<rparr>"
proof -
  let ?c = "unlines [''/MN'', ''LBL[5:first]'', ''R[1]=1'', ''LBL[5:second]'', ''R[2]=2'', ''JMP LBL[5]'', ''/END'']"
  have "map (\<lambda>nd. (label_num nd, label_name nd, instructions nd))
          (store (parse_program_content new_flow_analyzer ?c)) =
        [(5, ''first'', [''R[1]=1'']), (5, ''second'', [''R[2]=2'']), (5, [], [])]"
    by code_simp
  moreover have "flow_nodes (parse_program_content new_flow_analyzer ?c) 5 = Some 2"
    by code_simp
  moreover have "node_of (parse_program_content new_flow_analyzer ?c) 5 =
        Some \<lparr> label_num = 5, label_name = [], instructions = [], successors = [], conditions = [] \<rparr>"
    by code_simp
  ultimately show ?thesis by (intro conjI)
qed

end
